theory Spec2Isabelle
  imports Main "HOL-Library.Word"
begin

unbundle bit_operations_syntax

section \<open>Data model\<close>

text \<open>
  A Node \<^verbatim>\<open>Buffer\<close> is a sequence of bytes; a JavaScript string is a sequence of
  UTF-16 code units. The content handed to the ECIES and ECDSA functions is either of
  the two (\<^verbatim>\<open>string | Buffer\<close>).
\<close>

type_synonym byte = "8 word"
type_synonym buffer = "byte list"
type_synonym jsstring = "16 word list"

datatype content = Str jsstring | Buf buffer

text \<open>
  The two errors the module raises itself, and the errors raised inside the
  \<^verbatim>\<open>elliptic\<close> and \<^verbatim>\<open>crypto\<close> libraries, which the module never catches:
  \<^item> \<open>BNTooLarge\<close>: \<^verbatim>\<open>Error('Generated a > 32-byte BN for encryption. Failing.')\<close>
  \<^item> \<open>MacCheckFailed\<close>: \<^verbatim>\<open>Error('Decryption failed: failure in MAC check')\<close>
  \<^item> \<open>LibraryError msg\<close>: an error thrown by a library call, with its message.
\<close>

type_synonym lib_error = string

datatype error = BNTooLarge | MacCheckFailed | LibraryError lib_error

text \<open>The \<^verbatim>\<open>CipherObject\<close> type of the source: four hex strings and a flag.\<close>

record CipherObject =
  iv :: jsstring
  ephemeralPK :: jsstring
  cipherText :: jsstring
  mac :: jsstring
  wasString :: bool

record sharedKeys =
  encryptionKey :: buffer
  hmacKey :: buffer

section \<open>Hex strings\<close>

text \<open>A hex digit \<open>d < 16\<close> as a lower-case character (a code unit).\<close>

definition hexDigit :: "nat \<Rightarrow> 16 word" where
  "hexDigit d = (if d < 10 then of_nat (48 + d) else of_nat (87 + d))"

text \<open>The value of a hex character, either case, given by its character code.\<close>

definition hexValue :: "nat \<Rightarrow> nat option" where
  "hexValue n =
     (if 48 \<le> n \<and> n \<le> 57 then Some (n - 48)
      else if 97 \<le> n \<and> n \<le> 102 then Some (n - 87)
      else if 65 \<le> n \<and> n \<le> 70 then Some (n - 55)
      else None)"

text \<open>
  Node's hex decoder looks at the low byte of each code unit of the string only: the
  code unit U+0131 counts as the digit \<^verbatim>\<open>'1'\<close> (0x31), and a string of two such
  code units decodes to the one byte \<^verbatim>\<open>11\<close>.
\<close>

definition unhex :: "16 word \<Rightarrow> nat option" where
  "unhex c = hexValue (unat c mod 256)"

text \<open>A string of hex characters: every code unit is itself a hex digit.\<close>

definition isHexString :: "jsstring \<Rightarrow> bool" where
  "isHexString s = list_all (\<lambda>c. hexValue (unat c) \<noteq> None) s"

text \<open>\<^verbatim>\<open>buf.toString('hex')\<close>: two lower-case digits per byte.\<close>

definition hexOfByte :: "byte \<Rightarrow> jsstring" where
  "hexOfByte b = [hexDigit (unat b div 16), hexDigit (unat b mod 16)]"

definition toStringHex :: "buffer \<Rightarrow> jsstring" where
  "toStringHex b = concat (map hexOfByte b)"

text \<open>
  \<^verbatim>\<open>new Buffer(s, 'hex')\<close>: Node decodes pairs of characters, each read through
  its low byte, and stops at the first pair that is not two hex digits; a trailing
  single character is dropped. It does not throw.
\<close>

fun bufferFromHex :: "jsstring \<Rightarrow> buffer" where
  "bufferFromHex (a # b # rest) =
     (case unhex a of
        None \<Rightarrow> []
      | Some x \<Rightarrow> (case unhex b of
                     None \<Rightarrow> []
                   | Some y \<Rightarrow> of_nat (16 * x + y) # bufferFromHex rest))"
| "bufferFromHex _ = []"

text \<open>
  \<^verbatim>\<open>bn.toString('hex')\<close> of a non-negative big number (the x-coordinate that
  \<^verbatim>\<open>derive\<close> returns): its hex digits without leading zeros, \<^verbatim>\<open>'0'\<close> for zero.
\<close>

fun bnToStringHex :: "nat \<Rightarrow> jsstring" where
  "bnToStringHex n =
     (if n < 16 then [hexDigit n] else bnToStringHex (n div 16) @ [hexDigit (n mod 16)])"

declare bnToStringHex.simps [simp del]

section \<open>getHexFromBN\<close>

text \<open>
  The function reads its argument only through \<^verbatim>\<open>bnInput.toString('hex')\<close>; the
  method is the first argument of the model.
\<close>

definition getHexFromBN :: "('bn \<Rightarrow> jsstring) \<Rightarrow> 'bn \<Rightarrow> error + jsstring" where
  "getHexFromBN toStringHexOf bnInput =
     (let hexOut = toStringHexOf bnInput in
      if length hexOut = 64 then Inr hexOut
      else if length hexOut < 64 then
        (let padding = replicate (64 - length hexOut) (48 :: 16 word)
         in Inr (padding @ hexOut))
      else Inl BNTooLarge)"

section \<open>Constant-time comparison\<close>

text \<open>
  \<^verbatim>\<open>b[i]\<close> inside a bitwise operator: the byte as a 32-bit integer, and 0 for an
  index out of range (\<^verbatim>\<open>undefined\<close> converts to 0).
\<close>

definition byteAt :: "buffer \<Rightarrow> nat \<Rightarrow> 32 word" where
  "byteAt b i = (if i < length b then ucast (b ! i) else 0)"

text \<open>The loop \<^verbatim>\<open>for (let i = 0; i < b1.length; i++) res |= b1[i] ^ b2[i]\<close>.\<close>

function equalConstTime_loop :: "buffer \<Rightarrow> buffer \<Rightarrow> nat \<Rightarrow> 32 word \<Rightarrow> 32 word" where
  "equalConstTime_loop b1 b2 i res =
     (if i < length b1
      then equalConstTime_loop b1 b2 (i + 1) (res OR (byteAt b1 i XOR byteAt b2 i))
      else res)"
  by pat_completeness auto
termination
  by (relation "measure (\<lambda>(b1, b2, i, res). length b1 - i)") auto

declare equalConstTime_loop.simps [simp del]

definition equalConstTime :: "buffer \<Rightarrow> buffer \<Rightarrow> bool" where
  "equalConstTime b1 b2 =
     (if length b1 \<noteq> length b2 then False
      else equalConstTime_loop b1 b2 0 0 = 0)"


section \<open>Strings and buffers\<close>

definition isHighSurrogate :: "16 word \<Rightarrow> bool" where
  "isHighSurrogate c = (55296 \<le> unat c \<and> unat c \<le> 56319)"

definition isLowSurrogate :: "16 word \<Rightarrow> bool" where
  "isLowSurrogate c = (56320 \<le> unat c \<and> unat c \<le> 57343)"

text \<open>The UTF-8 bytes of a code point.\<close>

definition utf8Bytes :: "nat \<Rightarrow> buffer" where
  "utf8Bytes cp =
     (if cp < 128 then [of_nat cp]
      else if cp < 2048 then [of_nat (192 + cp div 64), of_nat (128 + cp mod 64)]
      else if cp < 65536 then
        [of_nat (224 + cp div 4096), of_nat (128 + cp div 64 mod 64), of_nat (128 + cp mod 64)]
      else
        [of_nat (240 + cp div 262144), of_nat (128 + cp div 4096 mod 64),
         of_nat (128 + cp div 64 mod 64), of_nat (128 + cp mod 64)])"

text \<open>
  \<^verbatim>\<open>Buffer.from(s)\<close> for a string: its UTF-8 encoding. A surrogate pair is one code
  point; a surrogate without its partner is encoded as U+FFFD (\<^verbatim>\<open>ef bf bd\<close>).
\<close>

fun bufferFromString :: "jsstring \<Rightarrow> buffer" where
  "bufferFromString [] = []"
| "bufferFromString [c] =
     (if isHighSurrogate c \<or> isLowSurrogate c then utf8Bytes 65533 else utf8Bytes (unat c))"
| "bufferFromString (c # d # r) =
     (if isHighSurrogate c then
        (if isLowSurrogate d
         then utf8Bytes (65536 + (unat c - 55296) * 1024 + (unat d - 56320)) @ bufferFromString r
         else utf8Bytes 65533 @ bufferFromString (d # r))
      else if isLowSurrogate c then utf8Bytes 65533 @ bufferFromString (d # r)
      else utf8Bytes (unat c) @ bufferFromString (d # r))"

text \<open>
  A string is well formed (\<^verbatim>\<open>s.isWellFormed()\<close>) when every surrogate in it is half
  of a pair: a high surrogate directly followed by a low one.
\<close>

fun wellFormedUtf16 :: "jsstring \<Rightarrow> bool" where
  "wellFormedUtf16 [] = True"
| "wellFormedUtf16 [c] = (\<not> isHighSurrogate c \<and> \<not> isLowSurrogate c)"
| "wellFormedUtf16 (c # d # r) =
     (if isHighSurrogate c then isLowSurrogate d \<and> wellFormedUtf16 r
      else \<not> isLowSurrogate c \<and> wellFormedUtf16 (d # r))"

text \<open>\<^verbatim>\<open>Buffer.from(content)\<close>: a string is encoded, a buffer is copied.\<close>

fun bufferFrom :: "content \<Rightarrow> buffer" where
  "bufferFrom (Str s) = bufferFromString s"
| "bufferFrom (Buf b) = b"

text \<open>The UTF-16 code units of a code point.\<close>

definition codeUnits :: "nat \<Rightarrow> jsstring" where
  "codeUnits cp =
     (if cp < 65536 then [of_nat cp]
      else [of_nat (55296 + (cp - 65536) div 1024), of_nat (56320 + (cp - 65536) mod 1024)])"

definition inRange :: "nat \<Rightarrow> nat \<Rightarrow> byte \<Rightarrow> bool" where
  "inRange lo hi b = (lo \<le> unat b \<and> unat b \<le> hi)"

text \<open>
  \<^verbatim>\<open>buf.toString()\<close>: UTF-8 decoding. A byte that cannot start or continue a
  sequence ends the sequence read so far, which becomes one U+FFFD, and is read again
  as the start of the next one.
\<close>

fun toStringUtf8 :: "buffer \<Rightarrow> jsstring" where
  "toStringUtf8 [] = []"
| "toStringUtf8 (b # bs) =
     (if unat b < 128 then ucast b # toStringUtf8 bs
      else if 194 \<le> unat b \<and> unat b \<le> 223 then
        (case bs of
           [] \<Rightarrow> [65533]
         | c1 # r1 \<Rightarrow>
             if inRange 128 191 c1
             then codeUnits ((unat b - 192) * 64 + (unat c1 - 128)) @ toStringUtf8 r1
             else 65533 # toStringUtf8 bs)
      else if 224 \<le> unat b \<and> unat b \<le> 239 then
        (case bs of
           [] \<Rightarrow> [65533]
         | c1 # r1 \<Rightarrow>
             if inRange (if unat b = 224 then 160 else 128) (if unat b = 237 then 159 else 191) c1
             then (case r1 of
                     [] \<Rightarrow> [65533]
                   | c2 # r2 \<Rightarrow>
                       if inRange 128 191 c2
                       then codeUnits ((unat b - 224) * 4096 + (unat c1 - 128) * 64
                                         + (unat c2 - 128)) @ toStringUtf8 r2
                       else 65533 # toStringUtf8 r1)
             else 65533 # toStringUtf8 bs)
      else if 240 \<le> unat b \<and> unat b \<le> 244 then
        (case bs of
           [] \<Rightarrow> [65533]
         | c1 # r1 \<Rightarrow>
             if inRange (if unat b = 240 then 144 else 128) (if unat b = 244 then 143 else 191) c1
             then (case r1 of
                     [] \<Rightarrow> [65533]
                   | c2 # r2 \<Rightarrow>
                       if inRange 128 191 c2
                       then (case r2 of
                               [] \<Rightarrow> [65533]
                             | c3 # r3 \<Rightarrow>
                                 if inRange 128 191 c3
                                 then codeUnits ((unat b - 240) * 262144 + (unat c1 - 128) * 4096
                                                   + (unat c2 - 128) * 64 + (unat c3 - 128))
                                        @ toStringUtf8 r3
                                 else 65533 # toStringUtf8 r2)
                       else 65533 # toStringUtf8 r1)
             else 65533 # toStringUtf8 bs)
      else 65533 # toStringUtf8 bs)"

text \<open>
  \<^verbatim>\<open>buf.slice(start, end)\<close>: negative offsets count from the end, both are clamped
  to the buffer, and \<^verbatim>\<open>end\<close> defaults to the length.
\<close>

definition slice :: "buffer \<Rightarrow> int \<Rightarrow> int option \<Rightarrow> buffer" where
  "slice b start end =
     (let n = int (length b);
          s = (if start < 0 then max (n + start) 0 else min start n);
          e0 = (case end of None \<Rightarrow> n | Some e \<Rightarrow> e);
          e = (if e0 < 0 then max (n + e0) 0 else min e0 n)
      in if e \<le> s then [] else take (nat (e - s)) (drop (nat s) b))"


section \<open>The libraries\<close>

text \<open>
  The module computes nothing cryptographic itself: every primitive is a call into
  \<^verbatim>\<open>elliptic\<close> (the curve \<^verbatim>\<open>secp256k1\<close>), Node's \<^verbatim>\<open>crypto\<close>, or
  \<^verbatim>\<open>./keys\<close>. The calls are the fields of a record that every function of the module
  takes as its first argument; a call that can throw returns the message on the left.
  \<^item> \<open>keyFromPrivate\<close>: \<^verbatim>\<open>ecurve.keyFromPrivate(hex, 'hex')\<close>
  \<^item> \<open>keyFromPublic\<close>: \<^verbatim>\<open>ecurve.keyFromPublic(hex, 'hex')\<close>, the parsed point
  \<^item> \<open>getPublic\<close>: \<^verbatim>\<open>keyPair.getPublic()\<close> of a private key
  \<^item> \<open>derive\<close>: \<^verbatim>\<open>keyPair.derive(point)\<close>, a non-negative big number
  \<^item> \<open>encodeCompressed\<close>: \<^verbatim>\<open>point.encodeCompressed()\<close>, the bytes;
    \<^verbatim>\<open>point.encodeCompressed('hex')\<close> is their hex string
  \<^item> \<open>signToDER\<close>: \<^verbatim>\<open>keyPair.sign(hash).toDER('hex')\<close>
  \<^item> \<open>verifySignature\<close>: \<^verbatim>\<open>keyPair.verify(hash, signature)\<close>
  \<^item> \<open>sha256\<close>, \<open>sha512\<close>: \<^verbatim>\<open>crypto.createHash(..).update(b).digest()\<close>
  \<^item> \<open>hmac_sha256\<close>: \<^verbatim>\<open>crypto.createHmac('sha256', key).update(b).digest()\<close>
  \<^item> \<open>cipher_aes256cbc\<close>, \<open>decipher_aes256cbc\<close>: \<^verbatim>\<open>crypto.createCipheriv\<close>
    and \<^verbatim>\<open>crypto.createDecipheriv\<close> for \<^verbatim>\<open>'aes-256-cbc'\<close> with key and iv, then
    \<^verbatim>\<open>update\<close> and \<^verbatim>\<open>final\<close>
  \<^item> \<open>getPublicKeyFromPrivate\<close>: the function imported from \<^verbatim>\<open>./keys\<close>, which is
    not part of the sources at hand.
\<close>

record ('sk, 'pt) primitives =
  keyFromPrivate :: "jsstring \<Rightarrow> lib_error + 'sk"
  keyFromPublic :: "jsstring \<Rightarrow> lib_error + 'pt"
  getPublic :: "'sk \<Rightarrow> 'pt"
  derive :: "'sk \<Rightarrow> 'pt \<Rightarrow> lib_error + nat"
  encodeCompressed :: "'pt \<Rightarrow> buffer"
  signToDER :: "'sk \<Rightarrow> buffer \<Rightarrow> lib_error + jsstring"
  verifySignature :: "'pt \<Rightarrow> buffer \<Rightarrow> jsstring \<Rightarrow> lib_error + bool"
  sha256 :: "buffer \<Rightarrow> buffer"
  sha512 :: "buffer \<Rightarrow> buffer"
  hmac_sha256 :: "buffer \<Rightarrow> buffer \<Rightarrow> buffer"
  cipher_aes256cbc :: "buffer \<Rightarrow> buffer \<Rightarrow> buffer \<Rightarrow> lib_error + buffer"
  decipher_aes256cbc :: "buffer \<Rightarrow> buffer \<Rightarrow> buffer \<Rightarrow> lib_error + buffer"
  getPublicKeyFromPrivate :: "jsstring \<Rightarrow> lib_error + jsstring"

text \<open>
  The fresh randomness of one encryption: the key pair of \<^verbatim>\<open>ecurve.genKeyPair()\<close>
  and the bytes of \<^verbatim>\<open>crypto.randomBytes(16)\<close>.
\<close>

record 'sk entropy =
  genKeyPair :: 'sk
  randomBytes16 :: buffer

text \<open>An error thrown inside a library call leaves the calling function as it is.\<close>

definition thrown :: "lib_error + 'a \<Rightarrow> error + 'a" where
  "thrown r = (case r of Inl msg \<Rightarrow> Inl (LibraryError msg) | Inr v \<Rightarrow> Inr v)"

section \<open>The symmetric layer\<close>

definition aes256CbcEncrypt ::
  "('sk, 'pt) primitives \<Rightarrow> buffer \<Rightarrow> buffer \<Rightarrow> buffer \<Rightarrow> error + buffer" where
  "aes256CbcEncrypt L ivBuffer key plaintext = thrown (cipher_aes256cbc L key ivBuffer plaintext)"

definition aes256CbcDecrypt ::
  "('sk, 'pt) primitives \<Rightarrow> buffer \<Rightarrow> buffer \<Rightarrow> buffer \<Rightarrow> error + buffer" where
  "aes256CbcDecrypt L ivBuffer key ciphertext =
     thrown (decipher_aes256cbc L key ivBuffer ciphertext)"

definition hmacSha256 :: "('sk, 'pt) primitives \<Rightarrow> buffer \<Rightarrow> buffer \<Rightarrow> buffer" where
  "hmacSha256 L key content = hmac_sha256 L key content"

definition sharedSecretToKeys :: "('sk, 'pt) primitives \<Rightarrow> buffer \<Rightarrow> sharedKeys" where
  "sharedSecretToKeys L sharedSecret =
     (let hashedSecret = sha512 L sharedSecret in
      \<lparr> encryptionKey = slice hashedSecret 0 (Some 32),
        hmacKey = slice hashedSecret 32 None \<rparr>)"

section \<open>ECIES\<close>

definition encryptECIES ::
  "('sk, 'pt) primitives \<Rightarrow> 'sk entropy \<Rightarrow> jsstring \<Rightarrow> content \<Rightarrow> error + CipherObject" where
  "encryptECIES L rnd publicKey content =
     (let isString = (case content of Str _ \<Rightarrow> True | Buf _ \<Rightarrow> False);
          plainText = bufferFrom content
      in case thrown (keyFromPublic L publicKey) of
           Inl e \<Rightarrow> Inl e
         | Inr ecPK \<Rightarrow>
      let ephemeralSK = genKeyPair rnd;
          ephemeralPoint = getPublic L ephemeralSK
      in case thrown (derive L ephemeralSK ecPK) of
           Inl e \<Rightarrow> Inl e
         | Inr sharedSecret \<Rightarrow>
      case getHexFromBN bnToStringHex sharedSecret of
           Inl e \<Rightarrow> Inl e
         | Inr sharedSecretHex \<Rightarrow>
      let keys = sharedSecretToKeys L (bufferFromHex sharedSecretHex);
          initializationVector = randomBytes16 rnd
      in case aes256CbcEncrypt L initializationVector (encryptionKey keys) plainText of
           Inl e \<Rightarrow> Inl e
         | Inr cipherTextBuffer \<Rightarrow>
      let macData = initializationVector @ encodeCompressed L ephemeralPoint @ cipherTextBuffer;
          macBuffer = hmacSha256 L (hmacKey keys) macData
      in Inr \<lparr> iv = toStringHex initializationVector,
               ephemeralPK = toStringHex (encodeCompressed L ephemeralPoint),
               cipherText = toStringHex cipherTextBuffer,
               mac = toStringHex macBuffer,
               wasString = isString \<rparr>)"

definition decryptECIES ::
  "('sk, 'pt) primitives \<Rightarrow> jsstring \<Rightarrow> CipherObject \<Rightarrow> error + content" where
  "decryptECIES L privateKey cipherObject =
     (case thrown (keyFromPrivate L privateKey) of
        Inl e \<Rightarrow> Inl e
      | Inr ecSK \<Rightarrow>
      case thrown (keyFromPublic L (ephemeralPK cipherObject)) of
        Inl e \<Rightarrow> Inl e
      | Inr ephemeralPoint \<Rightarrow>
      case thrown (derive L ecSK ephemeralPoint) of
        Inl e \<Rightarrow> Inl e
      | Inr sharedSecret \<Rightarrow>
      case getHexFromBN bnToStringHex sharedSecret of
        Inl e \<Rightarrow> Inl e
      | Inr sharedSecretHex \<Rightarrow>
      let sharedSecretBuffer = bufferFromHex sharedSecretHex;
          keys = sharedSecretToKeys L sharedSecretBuffer;
          ivBuffer = bufferFromHex (iv cipherObject);
          cipherTextBuffer = bufferFromHex (cipherText cipherObject);
          macData = ivBuffer @ encodeCompressed L ephemeralPoint @ cipherTextBuffer;
          actualMac = hmacSha256 L (hmacKey keys) macData;
          expectedMac = bufferFromHex (mac cipherObject)
      in if \<not> equalConstTime expectedMac actualMac then Inl MacCheckFailed
         else case aes256CbcDecrypt L ivBuffer (encryptionKey keys) cipherTextBuffer of
                Inl e \<Rightarrow> Inl e
              | Inr plainText \<Rightarrow>
                  if wasString cipherObject then Inr (Str (toStringUtf8 plainText))
                  else Inr (Buf plainText))"

section \<open>ECDSA\<close>

record signed =
  signature :: jsstring
  publicKey :: jsstring

definition signECDSA ::
  "('sk, 'pt) primitives \<Rightarrow> jsstring \<Rightarrow> content \<Rightarrow> error + signed" where
  "signECDSA L privateKey content =
     (let contentBuffer = bufferFrom content
      in case thrown (keyFromPrivate L privateKey) of
           Inl e \<Rightarrow> Inl e
         | Inr ecPrivate \<Rightarrow>
      case thrown (getPublicKeyFromPrivate L privateKey) of
           Inl e \<Rightarrow> Inl e
         | Inr publicKeyHex \<Rightarrow>
      let contentHash = sha256 L contentBuffer
      in case thrown (signToDER L ecPrivate contentHash) of
           Inl e \<Rightarrow> Inl e
         | Inr signatureString \<Rightarrow>
             Inr \<lparr> signature = signatureString, publicKey = publicKeyHex \<rparr>)"

definition verifyECDSA ::
  "('sk, 'pt) primitives \<Rightarrow> content \<Rightarrow> jsstring \<Rightarrow> jsstring \<Rightarrow> error + bool" where
  "verifyECDSA L content publicKeyHex signatureHex =
     (let contentBuffer = bufferFrom content
      in case thrown (keyFromPublic L publicKeyHex) of
           Inl e \<Rightarrow> Inl e
         | Inr ecPublic \<Rightarrow>
      let contentHash = sha256 L contentBuffer
      in thrown (verifySignature L ecPublic contentHash signatureHex))"

section \<open>Tampering\<close>

text \<open>
  Flipping bit \<open>i\<close> of a buffer, bits counted from the least significant bit of the
  first byte: the change that tamper sensitivity is stated for.
\<close>

definition flipBit :: "nat \<Rightarrow> buffer \<Rightarrow> buffer" where
  "flipBit i b = b[i div 8 := (b ! (i div 8)) XOR push_bit (i mod 8) 1]"

section \<open>A small instance of the libraries\<close>

text \<open>
  An instance of the record of library calls that can be evaluated: a group of
  integers in place of the curve (a point is a number below 1009, a private key
  multiplies), a byte-wise cipher, and checksums as digests. It has the interfaces of
  the libraries (a compressed point is \<^verbatim>\<open>02\<close> and 32 bytes, an uncompressed one
  \<^verbatim>\<open>04\<close> and 64 bytes, any other format is rejected as unknown; digests have 32
  and 64 bytes, keys 32 and the initialization vector 16; a signature is accepted for
  the point and the digest it was made for) and none of their security.
  The theorems below hold for every instance; this one shows that their hypotheses can
  be met, and carries the inputs on which a claim fails.
\<close>

fun bytesOfNat :: "nat \<Rightarrow> nat \<Rightarrow> buffer" where
  "bytesOfNat n x = (if n = 0 then [] else bytesOfNat (n - 1) (x div 256) @ [of_nat (x mod 256)])"

declare bytesOfNat.simps [simp del]

definition natOfBytes :: "buffer \<Rightarrow> nat" where
  "natOfBytes b = foldl (\<lambda>a x. a * 256 + unat x) 0 b"

definition demoDigest :: "nat \<Rightarrow> buffer \<Rightarrow> buffer" where
  "demoDigest n b = bytesOfNat n (foldl (\<lambda>a x. (a * 257 + unat x + 1) mod 65521) 0 b)"

definition demoKeyFromPrivate :: "jsstring \<Rightarrow> lib_error + nat" where
  "demoKeyFromPrivate s = Inr (natOfBytes (bufferFromHex s))"

definition demoGetPublic :: "nat \<Rightarrow> nat" where
  "demoGetPublic k = (k * 5) mod 1009"

definition demoDerive :: "nat \<Rightarrow> nat \<Rightarrow> lib_error + nat" where
  "demoDerive k P = Inr ((k * P) mod 1009)"

definition demoEncodeCompressed :: "nat \<Rightarrow> buffer" where
  "demoEncodeCompressed P = 2 # bytesOfNat 32 P"

definition demoKeyFromPublic :: "jsstring \<Rightarrow> lib_error + nat" where
  "demoKeyFromPublic s =
     (let b = bufferFromHex s in
      if (length b = 33 \<and> take 1 b = [2]) \<or>
         (length b = 65 \<and> take 1 b = [4] \<and> drop 33 b = take 32 (drop 1 b))
      then (if natOfBytes (take 32 (drop 1 b)) < 1009
            then Inr (natOfBytes (take 32 (drop 1 b)))
            else Inl ''invalid point'')
      else Inl ''Unknown point format'')"

definition demoCipher :: "buffer \<Rightarrow> buffer \<Rightarrow> buffer \<Rightarrow> lib_error + buffer" where
  "demoCipher key ivBuffer b =
     (if length key \<noteq> 32 then Inl ''Invalid key length''
      else if length ivBuffer \<noteq> 16 then Inl ''Invalid IV length''
      else Inr (map (\<lambda>x. x XOR (key ! 0 XOR ivBuffer ! 0)) b))"

definition demoSignToDER :: "nat \<Rightarrow> buffer \<Rightarrow> lib_error + jsstring" where
  "demoSignToDER k h = Inr (toStringHex (bytesOfNat 32 (demoGetPublic k) @ h))"

definition demoVerifySignature :: "nat \<Rightarrow> buffer \<Rightarrow> jsstring \<Rightarrow> lib_error + bool" where
  "demoVerifySignature P h sg =
     (let b = bufferFromHex sg in
      if length sg \<noteq> 2 * length b \<or> length b < 32 then Inl ''Signature without r or s''
      else Inr (b = bytesOfNat 32 P @ h))"

definition demoLibrary :: "(nat, nat) primitives" where
  "demoLibrary =
     \<lparr> keyFromPrivate = demoKeyFromPrivate,
       keyFromPublic = demoKeyFromPublic,
       getPublic = demoGetPublic,
       derive = demoDerive,
       encodeCompressed = demoEncodeCompressed,
       signToDER = demoSignToDER,
       verifySignature = demoVerifySignature,
       sha256 = demoDigest 32,
       sha512 = demoDigest 64,
       hmac_sha256 = (\<lambda>key b. demoDigest 32 (key @ b)),
       cipher_aes256cbc = demoCipher,
       decipher_aes256cbc = demoCipher,
       getPublicKeyFromPrivate =
         (\<lambda>s. Inr (toStringHex (demoEncodeCompressed
                  (demoGetPublic (natOfBytes (bufferFromHex s)))))) \<rparr>"

text \<open>
  The curve library takes the two coordinates of an uncompressed key as they come:
  \<^verbatim>\<open>decodePoint\<close> does not check that they are a point of the curve. The second
  instance does the same: it accepts every key of \<^verbatim>\<open>04\<close> and 64 bytes and keeps the
  first coordinate; everything else is as in the first instance.
\<close>

definition laxKeyFromPublic :: "jsstring \<Rightarrow> lib_error + nat" where
  "laxKeyFromPublic s =
     (let b = bufferFromHex s in
      if length b = 65 \<and> take 1 b = [4] then Inr (natOfBytes (take 32 (drop 1 b)) mod 1009)
      else demoKeyFromPublic s)"

definition laxLibrary :: "(nat, nat) primitives" where
  "laxLibrary = demoLibrary\<lparr>keyFromPublic := laxKeyFromPublic\<rparr>"

text \<open>
  A key pair of the instance (the private key \<^verbatim>\<open>'2a'\<close> and its public point,
  compressed), and the randomness of one encryption.
\<close>

definition demoPrivateKey :: jsstring where
  "demoPrivateKey = [50, 97]"

definition demoPublicKey :: jsstring where
  "demoPublicKey = toStringHex (demoEncodeCompressed 210)"

definition demoEntropy :: "nat entropy" where
  "demoEntropy = \<lparr> genKeyPair = 77, randomBytes16 = [1, 2, 3, 4, 5, 6, 7, 8, 9, 10, 11, 12, 13, 14, 15, 16] \<rparr>"

section \<open>Hex strings: decoding inverts encoding\<close>

lemma unat_hexDigit: "d < 16 \<Longrightarrow> unat (hexDigit d) = (if d < 10 then 48 + d else 87 + d)"
  unfolding hexDigit_def by (simp add: unat_of_nat del: of_nat_add)

lemma hexValue_hexDigit: "d < 16 \<Longrightarrow> hexValue (unat (hexDigit d)) = Some d"
  unfolding hexValue_def by (simp add: unat_hexDigit)

lemma unhex_hexDigit: "d < 16 \<Longrightarrow> unhex (hexDigit d) = Some d"
  unfolding unhex_def hexValue_def by (simp add: unat_hexDigit)

lemma bufferFromHex_hexOfByte:
  "bufferFromHex (hexOfByte b @ s) = b # bufferFromHex s"
proof -
  have "unat b < 256" using unsigned_less [of b] by simp
  then have "unat b div 16 < 16" by simp
  moreover have "unat b mod 16 < 16" by simp
  moreover have "(of_nat (16 * (unat b div 16) + unat b mod 16) :: byte) = b"
    by simp
  ultimately show ?thesis
    by (simp add: hexOfByte_def unhex_hexDigit)
qed

lemma bufferFromHex_toStringHex: "bufferFromHex (toStringHex b) = b"
  by (induction b) (simp_all add: toStringHex_def bufferFromHex_hexOfByte)

lemma bufferFromHex_toStringHex_append: "bufferFromHex (toStringHex b @ s) = b @ bufferFromHex s"
  by (induction b) (simp_all add: toStringHex_def bufferFromHex_hexOfByte)

lemma length_toStringHex: "length (toStringHex b) = 2 * length b"
  by (induction b) (simp_all add: toStringHex_def hexOfByte_def)

lemma length_bnToStringHex: "0 < k \<Longrightarrow> n < 16 ^ k \<Longrightarrow> length (bnToStringHex n) \<le> k"
proof (induction n arbitrary: k rule: bnToStringHex.induct)
  case (1 n)
  show ?case
  proof (cases "n < 16")
    case True
    then show ?thesis using "1.prems" by (subst bnToStringHex.simps) simp
  next
    case False
    then obtain k' where k: "k = Suc k'" "0 < k'"
      using "1.prems" by (cases k; cases "k - 1") auto
    have "n div 16 < 16 ^ k'"
      using "1.prems" k by (simp add: less_mult_imp_div_less mult.commute)
    then have "length (bnToStringHex (n div 16)) \<le> k'"
      using "1.IH" [OF False k(2)] by simp
    then show ?thesis using False k by (subst bnToStringHex.simps) simp
  qed
qed

lemma isHexString_bnToStringHex: "isHexString (bnToStringHex n)"
proof (induction n rule: bnToStringHex.induct)
  case (1 n)
  show ?case
  proof (cases "n < 16")
    case True
    then show ?thesis
      by (subst bnToStringHex.simps) (simp add: isHexString_def hexValue_hexDigit)
  next
    case False
    have "hexValue (unat (hexDigit (n mod 16))) \<noteq> None" by (simp add: hexValue_hexDigit)
    then show ?thesis
      using False "1.IH" by (subst bnToStringHex.simps) (simp add: isHexString_def)
  qed
qed

section \<open>The constant-time comparison decides equality\<close>

lemma ucast_byte_inj: "((ucast (a::byte) :: 32 word) = ucast (b::byte)) = (a = b)"
proof -
  have "(ucast (ucast c :: 32 word) :: byte) = c" for c :: byte
    by (simp add: ucast_up_ucast_id is_up)
  then show ?thesis by metis
qed

lemma word_xor_eq_zero: "((x::32 word) XOR y = 0) = (x = y)"
  by (metis bit.xor_left_self xor.right_neutral)

lemma byteAt_xor_zero:
  "i < length b1 \<Longrightarrow> i < length b2 \<Longrightarrow>
   (byteAt b1 i XOR byteAt b2 i = 0) = (b1 ! i = b2 ! i)"
  by (simp add: byteAt_def word_xor_eq_zero ucast_byte_inj)

lemma all_from_split:
  "i < n \<Longrightarrow>
   (\<forall>j. i \<le> j \<and> j < n \<longrightarrow> P j) = (P i \<and> (\<forall>j. Suc i \<le> j \<and> j < n \<longrightarrow> P j))"
proof (intro iffI conjI allI impI)
  fix j
  assume "i < n" and all: "P i \<and> (\<forall>j. Suc i \<le> j \<and> j < n \<longrightarrow> P j)" and j: "i \<le> j \<and> j < n"
  show "P j"
  proof (cases "j = i")
    case True
    then show ?thesis using all by simp
  next
    case False
    then have "Suc i \<le> j \<and> j < n" using j by simp
    then show ?thesis using all by blast
  qed
qed simp_all

lemma equalConstTime_loop_zero:
  "length b1 = length b2 \<Longrightarrow>
   (equalConstTime_loop b1 b2 i res = 0) =
   (res = 0 \<and> (\<forall>j. i \<le> j \<and> j < length b1 \<longrightarrow> b1 ! j = b2 ! j))"
proof (induction b1 b2 i res rule: equalConstTime_loop.induct)
  case (1 b1 b2 i res)
  show ?case
  proof (cases "i < length b1")
    case True
    have step: "equalConstTime_loop b1 b2 i res =
                equalConstTime_loop b1 b2 (i + 1) (res OR (byteAt b1 i XOR byteAt b2 i))"
      using True by (subst equalConstTime_loop.simps) simp
    have here: "(byteAt b1 i XOR byteAt b2 i = 0) = (b1 ! i = b2 ! i)"
      using True "1.prems" by (simp add: byteAt_xor_zero)
    have "(equalConstTime_loop b1 b2 i res = 0) =
          ((res OR (byteAt b1 i XOR byteAt b2 i)) = 0 \<and>
           (\<forall>j. i + 1 \<le> j \<and> j < length b1 \<longrightarrow> b1 ! j = b2 ! j))"
      using "1.IH" [OF True "1.prems"] by (simp only: step)
    also have "\<dots> = (res = 0 \<and> b1 ! i = b2 ! i \<and>
                      (\<forall>j. Suc i \<le> j \<and> j < length b1 \<longrightarrow> b1 ! j = b2 ! j))"
      by (simp add: or_eq_0_iff here)
    also have "\<dots> = (res = 0 \<and> (\<forall>j. i \<le> j \<and> j < length b1 \<longrightarrow> b1 ! j = b2 ! j))"
      by (simp only: all_from_split [OF True, of "\<lambda>j. b1 ! j = b2 ! j"])
    finally show ?thesis .
  next
    case False
    have stop: "equalConstTime_loop b1 b2 i res = res"
      using False by (subst equalConstTime_loop.simps) simp
    have none: "\<forall>j. i \<le> j \<and> j < length b1 \<longrightarrow> b1 ! j = b2 ! j"
      using False by auto
    show ?thesis unfolding stop using none by blast
  qed
qed

lemma equalConstTime_iff: "equalConstTime b1 b2 = (b1 = b2)"
  by (auto simp: equalConstTime_def equalConstTime_loop_zero list_eq_iff_nth_eq)

text \<open>
  Claim C7. The constant-time comparison returns false whenever the two buffers differ
  in length, and for buffers of equal length it returns true exactly when they hold
  the same bytes. This holds for buffers of every length, so in particular for lengths
  0 to 64.
\<close>

theorem equalConstTime_correct:
  "(length a \<noteq> length b \<longrightarrow> \<not> equalConstTime a b) \<and>
   (length a = length b \<longrightarrow> equalConstTime a b = (a = b))"
  by (auto simp: equalConstTime_iff)

theorem equalConstTime_correct_witness:
  "(length [1, 2 :: byte] \<noteq> length [1, 2, 3 :: byte] \<and> \<not> equalConstTime [1, 2] [1, 2, 3]) \<and>
   (length [1, 2, 3 :: byte] = length [1, 2, 4 :: byte] \<and>
      equalConstTime [1, 2, 3] [1, 2, 4] = ([1, 2, 3 :: byte] = [1, 2, 4]))"
  using equalConstTime_correct [of "[1, 2]" "[1, 2, 3]"]
        equalConstTime_correct [of "[1, 2, 3]" "[1, 2, 4]"]
  by simp

text \<open>
  Claim C6. Whenever the hex string that the big number's \<^verbatim>\<open>toString('hex')\<close> yields
  has at most 64 characters, \<open>getHexFromBN\<close> returns it left-padded with \<^verbatim>\<open>'0'\<close> to
  exactly 64 characters, all of them hex digits when the string consisted of hex digits
  (as that of a non-negative big number does); whenever it has more than 64 characters,
  \<open>getHexFromBN\<close> raises its error.
\<close>

theorem getHexFromBN_pads_or_fails:
  "(length (toStr bn) \<le> 64 \<longrightarrow>
      (\<exists>h. getHexFromBN toStr bn = Inr h \<and> length h = 64 \<and>
           h = replicate (64 - length (toStr bn)) 48 @ toStr bn \<and>
           (isHexString (toStr bn) \<longrightarrow> isHexString h))) \<and>
   (64 < length (toStr bn) \<longrightarrow> getHexFromBN toStr bn = Inl BNTooLarge)"
proof -
  have zero: "hexValue 48 = Some 0" by (simp add: hexValue_def)
  show ?thesis
    by (auto simp: getHexFromBN_def Let_def isHexString_def zero list_all_iff)
qed

theorem getHexFromBN_pads_or_fails_witness:
  "(length (bnToStringHex 4096) \<le> 64 \<and>
      getHexFromBN bnToStringHex 4096 = Inr (replicate 60 48 @ [49, 48, 48, 48]) \<and>
      isHexString (bnToStringHex 4096) \<and> isHexString (replicate 60 48 @ [49, 48, 48, 48])) \<and>
   (64 < length (bnToStringHex (2 ^ 256)) \<and>
      getHexFromBN bnToStringHex (2 ^ 256) = Inl BNTooLarge)"
proof -
  have s: "bnToStringHex 4096 = [49, 48, 48, 48]"
    by (simp add: bnToStringHex.simps hexDigit_def)
  have l: "length (bnToStringHex (2 ^ 256)) = 65"
    by (simp add: bnToStringHex.simps)
  have h: "isHexString [49, 48, 48, 48]"
    by (simp add: isHexString_def hexValue_def)
  show ?thesis
    using getHexFromBN_pads_or_fails [of bnToStringHex 4096]
          getHexFromBN_pads_or_fails [of bnToStringHex "2 ^ 256"] s l h
    by simp
qed

section \<open>A flipped bit changes a buffer\<close>

lemma flipBit_update:
  assumes "i < 8 * length b"
  shows "\<exists>j y. j < length b \<and> y \<noteq> b ! j \<and> flipBit i b = b[j := y]"
proof -
  have j: "i div 8 < length b" using assms by (simp add: less_mult_imp_div_less mult.commute)
  have "i mod 8 < 8" by simp
  then have nz: "(push_bit (i mod 8) 1 :: byte) \<noteq> 0"
    by (simp add: push_bit_eq_mult)
  have "(b ! (i div 8)) XOR push_bit (i mod 8) 1 \<noteq> b ! (i div 8)"
  proof
    assume "(b ! (i div 8)) XOR push_bit (i mod 8) 1 = b ! (i div 8)"
    then have "(b ! (i div 8)) XOR ((b ! (i div 8)) XOR push_bit (i mod 8) 1) = 0" by simp
    then have "(push_bit (i mod 8) 1 :: byte) = 0"
      by (simp add: xor.assoc [symmetric])
    then show False using nz by simp
  qed
  then show ?thesis using j unfolding flipBit_def by blast
qed

lemma flipBit_changes:
  assumes "i < 8 * length b"
  shows "flipBit i b \<noteq> b"
proof -
  obtain j y where "j < length b" "y \<noteq> b ! j" "flipBit i b = b[j := y]"
    using flipBit_update [OF assms] by blast
  then have "flipBit i b ! j \<noteq> b ! j" by simp
  then show ?thesis by auto
qed

lemma flipBit_append_left:
  assumes "i < 8 * length a"
  shows "flipBit i (a @ b) = flipBit i a @ b"
proof -
  have "i div 8 < length a" using assms by (simp add: less_mult_imp_div_less mult.commute)
  then show ?thesis by (simp add: flipBit_def list_update_append nth_append)
qed

lemma flipBit_append_right: "flipBit (8 * length a + i) (a @ b) = a @ flipBit i b"
proof -
  have "(8 * length a + i) div 8 = length a + i div 8" by simp
  moreover have "(8 * length a + i) mod 8 = i mod 8" by simp
  ultimately show ?thesis by (simp add: flipBit_def list_update_append nth_append)
qed

lemma length_flipBit: "length (flipBit i b) = length b"
  by (simp add: flipBit_def)

section \<open>UTF-8: decoding inverts encoding on well-formed strings\<close>

lemma unat_of_nat_byte: "x < 256 \<Longrightarrow> unat (of_nat x :: byte) = x"
  by (simp add: unat_of_nat)

lemma ucast_of_nat_byte: "x < 256 \<Longrightarrow> (ucast (of_nat x :: byte) :: 16 word) = of_nat x"
  by (simp add: unsigned_of_nat take_bit_nat_eq_self)

lemma times64: "(q div 64) * 4096 + (q mod 64) * 64 = (q::nat) * 64"
proof -
  have alg: "\<And>a b::nat. a * 4096 + b * 64 = (a * 64 + b) * 64" by simp
  show ?thesis by (simp only: alg div_mult_mod_eq)
qed

lemma times4096:
  "(q div 4096) * 262144 + (q div 64 mod 64) * 4096 + (q mod 64) * 64 = (q::nat) * 64"
proof -
  have alg: "\<And>a b c::nat. a * 262144 + b * 4096 + c * 64 = ((a * 64 + b) * 64 + c) * 64"
    by simp
  have d: "q div 4096 = q div 64 div 64" by (simp add: div_mult2_eq [symmetric])
  show ?thesis by (simp only: alg d div_mult_mod_eq)
qed

lemma sextets3: "(cp div 4096) * 4096 + (cp div 64 mod 64) * 64 + cp mod 64 = (cp::nat)"
proof -
  have d: "cp div 4096 = cp div 64 div 64" by (simp add: div_mult2_eq [symmetric])
  show ?thesis by (simp only: d times64 div_mult_mod_eq)
qed

lemma sextets4:
  "(cp div 262144) * 262144 + (cp div 4096 mod 64) * 4096 + (cp div 64 mod 64) * 64 + cp mod 64
   = (cp::nat)"
proof -
  have a: "cp div 262144 = cp div 64 div 4096" by (simp add: div_mult2_eq [symmetric])
  have b: "cp div 4096 = cp div 64 div 64" by (simp add: div_mult2_eq [symmetric])
  show ?thesis by (simp only: a b times4096 div_mult_mod_eq)
qed

lemma decode1: "cp < 128 \<Longrightarrow> toStringUtf8 (utf8Bytes cp @ bs) = codeUnits cp @ toStringUtf8 bs"
  by (simp add: utf8Bytes_def codeUnits_def unat_of_nat_byte ucast_of_nat_byte del: of_nat_add)

lemma decode2:
  assumes "128 \<le> cp" "cp < 2048"
  shows "toStringUtf8 (utf8Bytes cp @ bs) = codeUnits cp @ toStringUtf8 bs"
proof -
  have d: "cp div 64 < 32" "2 \<le> cp div 64" using assms by auto
  have b0: "unat (of_nat (192 + cp div 64) :: byte) = 192 + cp div 64"
    using d by (intro unat_of_nat_byte) simp
  have b1: "unat (of_nat (128 + cp mod 64) :: byte) = 128 + cp mod 64"
    by (intro unat_of_nat_byte) simp
  have m: "cp mod 64 \<le> 63" by simp
  show ?thesis
    using assms d m
    by (simp add: utf8Bytes_def b0 b1 inRange_def del: of_nat_add)
qed

lemma decode3:
  assumes "2048 \<le> cp" "cp < 65536" "\<not> (55296 \<le> cp \<and> cp \<le> 57343)"
  shows "toStringUtf8 (utf8Bytes cp @ bs) = codeUnits cp @ toStringUtf8 bs"
proof -
  define d0 where "d0 = cp div 4096"
  define d1 where "d1 = cp div 64 mod 64"
  define d2 where "d2 = cp mod 64"
  have d0: "d0 < 16" unfolding d0_def using assms(2) by (simp add: less_mult_imp_div_less)
  have d1: "d1 \<le> 63" unfolding d1_def by simp
  have d2: "d2 \<le> 63" unfolding d2_def by simp
  have sum: "d0 * 4096 + d1 * 64 + d2 = cp"
    unfolding d0_def d1_def d2_def by (rule sextets3)
  have lo: "32 \<le> d1" if "d0 = 0"
  proof -
    have "2048 \<le> d1 * 64 + d2" using sum that assms(1) by simp
    then show ?thesis using d2 by simp
  qed
  have hi: "d1 < 32" if "d0 = 13"
  proof -
    have "cp < 55296" using sum that d1 d2 assms(3) by simp
    then have "d1 * 64 + d2 < 2048" using sum that by simp
    then show ?thesis by simp
  qed
  have b0: "unat (of_nat (224 + d0) :: byte) = 224 + d0"
    using d0 by (intro unat_of_nat_byte) simp
  have b1: "unat (of_nat (128 + d1) :: byte) = 128 + d1"
    using d1 by (intro unat_of_nat_byte) simp
  have b2: "unat (of_nat (128 + d2) :: byte) = 128 + d2"
    using d2 by (intro unat_of_nat_byte) simp
  have enc: "utf8Bytes cp = [of_nat (224 + d0), of_nat (128 + d1), of_nat (128 + d2)]"
    using assms by (simp add: utf8Bytes_def d0_def d1_def d2_def)
  have r1: "inRange (if 224 + d0 = 224 then 160 else 128) (if 224 + d0 = 237 then 159 else 191)
              (of_nat (128 + d1))"
    unfolding inRange_def b1 using lo hi d1 by auto
  have r2: "inRange 128 191 (of_nat (128 + d2))"
    unfolding inRange_def b2 using d2 by simp
  have "toStringUtf8 ([of_nat (224 + d0), of_nat (128 + d1), of_nat (128 + d2)] @ bs) =
        codeUnits (d0 * 4096 + d1 * 64 + d2) @ toStringUtf8 bs"
    using d0 r1 r2 by (simp add: b0 b1 b2 del: of_nat_add)
  then show ?thesis by (simp only: enc sum)
qed

lemma decode4:
  assumes "65536 \<le> cp" "cp < 1114112"
  shows "toStringUtf8 (utf8Bytes cp @ bs) = codeUnits cp @ toStringUtf8 bs"
proof -
  define d0 where "d0 = cp div 262144"
  define d1 where "d1 = cp div 4096 mod 64"
  define d2 where "d2 = cp div 64 mod 64"
  define d3 where "d3 = cp mod 64"
  have d0: "d0 \<le> 4"
  proof -
    have "cp div 262144 < 5" using assms(2) by (simp add: less_mult_imp_div_less)
    then show ?thesis unfolding d0_def by simp
  qed
  have d1: "d1 \<le> 63" unfolding d1_def by simp
  have d2: "d2 \<le> 63" unfolding d2_def by simp
  have d3: "d3 \<le> 63" unfolding d3_def by simp
  have sum: "d0 * 262144 + d1 * 4096 + d2 * 64 + d3 = cp"
    unfolding d0_def d1_def d2_def d3_def by (rule sextets4)
  have lo: "16 \<le> d1" if "d0 = 0"
  proof -
    have "65536 \<le> d1 * 4096 + d2 * 64 + d3" using sum that assms(1) by simp
    then show ?thesis using d2 d3 by simp
  qed
  have hi: "d1 < 16" if "d0 = 4"
  proof -
    have "d1 * 4096 + d2 * 64 + d3 < 65536" using sum that assms(2) by simp
    then show ?thesis by simp
  qed
  have b0: "unat (of_nat (240 + d0) :: byte) = 240 + d0"
    using d0 by (intro unat_of_nat_byte) simp
  have b1: "unat (of_nat (128 + d1) :: byte) = 128 + d1"
    using d1 by (intro unat_of_nat_byte) simp
  have b2: "unat (of_nat (128 + d2) :: byte) = 128 + d2"
    using d2 by (intro unat_of_nat_byte) simp
  have b3: "unat (of_nat (128 + d3) :: byte) = 128 + d3"
    using d3 by (intro unat_of_nat_byte) simp
  have enc: "utf8Bytes cp =
               [of_nat (240 + d0), of_nat (128 + d1), of_nat (128 + d2), of_nat (128 + d3)]"
    using assms by (simp add: utf8Bytes_def d0_def d1_def d2_def d3_def)
  have r1: "inRange (if 240 + d0 = 240 then 144 else 128) (if 240 + d0 = 244 then 143 else 191)
              (of_nat (128 + d1))"
    unfolding inRange_def b1 using lo hi d1 by auto
  have r2: "inRange 128 191 (of_nat (128 + d2))"
    unfolding inRange_def b2 using d2 by simp
  have r3: "inRange 128 191 (of_nat (128 + d3))"
    unfolding inRange_def b3 using d3 by simp
  have "toStringUtf8 ([of_nat (240 + d0), of_nat (128 + d1), of_nat (128 + d2),
                       of_nat (128 + d3)] @ bs) =
        codeUnits (d0 * 262144 + d1 * 4096 + d2 * 64 + d3) @ toStringUtf8 bs"
    using d0 r1 r2 r3 by (simp add: b0 b1 b2 b3 del: of_nat_add)
  then show ?thesis by (simp only: enc sum)
qed

lemma decode_scalar:
  assumes "cp < 1114112" "\<not> (55296 \<le> cp \<and> cp \<le> 57343)"
  shows "toStringUtf8 (utf8Bytes cp @ bs) = codeUnits cp @ toStringUtf8 bs"
proof -
  consider "cp < 128" | "128 \<le> cp \<and> cp < 2048" | "2048 \<le> cp \<and> cp < 65536" | "65536 \<le> cp"
    by linarith
  then show ?thesis
  proof cases
    case 1 then show ?thesis by (rule decode1)
  next
    case 2 then show ?thesis by (simp add: decode2)
  next
    case 3 then show ?thesis using assms(2) by (simp add: decode3)
  next
    case 4 then show ?thesis using assms(1) by (simp add: decode4)
  qed
qed

lemma unat_unit_bound: "unat (c :: 16 word) < 65536"
  using unsigned_less [of c] by simp

lemma codeUnits_unit: "codeUnits (unat (c :: 16 word)) = [c]"
  using unat_unit_bound [of c] by (simp add: codeUnits_def)

lemma codeUnits_pair:
  assumes "isHighSurrogate c" "isLowSurrogate d"
  shows "codeUnits (65536 + (unat c - 55296) * 1024 + (unat d - 56320)) = [c, d]"
proof -
  define h where "h = unat c - 55296"
  define l where "l = unat d - 56320"
  have c: "unat c = 55296 + h" using assms(1) by (simp add: isHighSurrogate_def h_def)
  have d: "unat d = 56320 + l" "l < 1024"
    using assms(2) by (auto simp: isLowSurrogate_def l_def)
  have q: "(h * 1024 + l) div 1024 = h" using d(2) by simp
  have r: "(h * 1024 + l) mod 1024 = l" using d(2) by simp
  have ge: "\<not> 65536 + h * 1024 + l < 65536" by simp
  have sub: "65536 + h * 1024 + l - 65536 = h * 1024 + l" by simp
  have "codeUnits (65536 + h * 1024 + l) = [of_nat (55296 + h), of_nat (56320 + l)]"
    by (simp only: codeUnits_def ge if_False sub q r)
  also have "\<dots> = [of_nat (unat c), of_nat (unat d)]" by (simp only: c d(1))
  finally show ?thesis by (simp add: h_def l_def)
qed

lemma pair_range:
  assumes "isHighSurrogate c" "isLowSurrogate d"
  shows "65536 \<le> 65536 + (unat c - 55296) * 1024 + (unat d - 56320) \<and>
         65536 + (unat c - 55296) * 1024 + (unat d - 56320) < 1114112"
proof -
  have "unat c - 55296 \<le> 1023" using assms(1) by (auto simp: isHighSurrogate_def)
  then have "(unat c - 55296) * 1024 \<le> 1023 * 1024" by (rule mult_le_mono1)
  moreover have "unat d - 56320 \<le> 1023" using assms(2) by (auto simp: isLowSurrogate_def)
  ultimately show ?thesis by simp
qed

lemma toStringUtf8_bufferFromString:
  "wellFormedUtf16 s \<Longrightarrow> toStringUtf8 (bufferFromString s) = s"
proof (induction s rule: bufferFromString.induct)
  case 1
  then show ?case by simp
next
  case (2 c)
  then have ns: "\<not> (55296 \<le> unat c \<and> unat c \<le> 57343)"
    by (auto simp: isHighSurrogate_def isLowSurrogate_def)
  have "unat c < 1114112" using unat_unit_bound [of c] by simp
  then have "toStringUtf8 (utf8Bytes (unat c) @ []) = codeUnits (unat c) @ toStringUtf8 []"
    using ns by (rule decode_scalar)
  then show ?case using 2 by (simp add: codeUnits_unit)
next
  case (3 c d r)
  show ?case
  proof (cases "isHighSurrogate c")
    case True
    then have low: "isLowSurrogate d" and rest: "wellFormedUtf16 r" using "3.prems" by simp_all
    let ?cp = "65536 + (unat c - 55296) * 1024 + (unat d - 56320)"
    have "toStringUtf8 (utf8Bytes ?cp @ bufferFromString r) =
          codeUnits ?cp @ toStringUtf8 (bufferFromString r)"
      using pair_range [OF True low] by (intro decode_scalar) simp_all
    then show ?thesis
      using True low "3.IH"(1) [OF True low rest] by (simp add: codeUnits_pair)
  next
    case False
    then have nl: "\<not> isLowSurrogate c" and rest: "wellFormedUtf16 (d # r)"
      using "3.prems" by simp_all
    have ns: "\<not> (55296 \<le> unat c \<and> unat c \<le> 57343)"
      using False nl by (auto simp: isHighSurrogate_def isLowSurrogate_def)
    have "unat c < 1114112" using unat_unit_bound [of c] by simp
    then have "toStringUtf8 (utf8Bytes (unat c) @ bufferFromString (d # r)) =
               codeUnits (unat c) @ toStringUtf8 (bufferFromString (d # r))"
      using ns by (rule decode_scalar)
    then show ?thesis
      using False nl "3.IH"(4) [OF False nl rest] by (simp add: codeUnits_unit)
  qed
qed

section \<open>Key derivation\<close>

lemma slice_take: "slice b 0 (Some 32) = take 32 b"
  by (auto simp: slice_def Let_def min_def)

lemma slice_drop: "slice b 32 None = drop 32 b"
  by (auto simp: slice_def Let_def min_def)

lemma sharedSecretToKeys_eq:
  "sharedSecretToKeys L s =
     \<lparr> encryptionKey = take 32 (sha512 L s), hmacKey = drop 32 (sha512 L s) \<rparr>"
  by (simp add: sharedSecretToKeys_def Let_def slice_take slice_drop)

lemma length_encryptionKey:
  "length (sha512 L s) = 64 \<Longrightarrow> length (encryptionKey (sharedSecretToKeys L s)) = 32"
  by (simp add: sharedSecretToKeys_eq)

lemma getHexFromBN_field:
  assumes "z < 2 ^ 256"
  shows "\<exists>hx. getHexFromBN bnToStringHex z = Inr hx"
proof -
  have "z < 16 ^ 64" using assms by simp
  then have "length (bnToStringHex z) \<le> 64"
    by (intro length_bnToStringHex) simp_all
  then show ?thesis by (auto simp: getHexFromBN_def Let_def)
qed

section \<open>The instance meets the contracts of the libraries\<close>

lemma length_bytesOfNat: "length (bytesOfNat n x) = n"
proof (induction n x rule: bytesOfNat.induct)
  case (1 n x)
  then show ?case by (subst bytesOfNat.simps) simp
qed

lemma length_demoDigest: "length (demoDigest n b) = n"
  by (simp add: demoDigest_def length_bytesOfNat)

lemma demo_sha512_length: "length (sha512 demoLibrary x) = 64"
  by (simp add: demoLibrary_def length_demoDigest)

lemma demo_hmac_length: "length (hmac_sha256 demoLibrary k d) = 32"
  by (simp add: demoLibrary_def length_demoDigest)

lemma demo_cipher_inverse:
  assumes "length key = 32" "length ivBuffer = 16"
  shows "\<exists>c. cipher_aes256cbc demoLibrary key ivBuffer p = Inr c \<and>
             decipher_aes256cbc demoLibrary key ivBuffer c = Inr p"
proof -
  have "map ((\<lambda>x. x XOR (key ! 0 XOR ivBuffer ! 0)) \<circ> (\<lambda>x. x XOR (key ! 0 XOR ivBuffer ! 0))) p = p"
    by (induction p) (simp_all add: xor.assoc)
  then show ?thesis using assms by (simp add: demoLibrary_def demoCipher_def)
qed

lemma demo_private: "keyFromPrivate demoLibrary demoPrivateKey = Inr 42"
  by (simp add: demoLibrary_def demoKeyFromPrivate_def demoPrivateKey_def unhex_def hexValue_def
        natOfBytes_def)

lemma demo_getPublic: "getPublic demoLibrary 42 = 210" "getPublic demoLibrary 77 = 385"
  by (simp_all add: demoLibrary_def demoGetPublic_def)

lemma demo_point_parses:
  "demoKeyFromPublic (toStringHex (demoEncodeCompressed 210)) = Inr 210"
  "demoKeyFromPublic (toStringHex (demoEncodeCompressed 385)) = Inr 385"
  by code_simp+

lemma demo_public: "keyFromPublic demoLibrary demoPublicKey = Inr 210"
  using demo_point_parses by (simp add: demoLibrary_def demoPublicKey_def)

lemma demo_ephemeral:
  "keyFromPublic demoLibrary (toStringHex (encodeCompressed demoLibrary 385)) = Inr 385"
  using demo_point_parses by (simp add: demoLibrary_def)

lemma demo_derive: "derive demoLibrary 77 210 = Inr 26" "derive demoLibrary 42 385 = Inr 26"
  by (simp_all add: demoLibrary_def demoDerive_def)

lemma demo_entropy: "genKeyPair demoEntropy = 77" "length (randomBytes16 demoEntropy) = 16"
  by (simp_all add: demoEntropy_def)

section \<open>What encryption returns and what decryption computes\<close>

lemma encryptECIES_unfold:
  assumes "keyFromPublic L publicKeyHex = Inr ecPK"
    and "derive L (genKeyPair rnd) ecPK = Inr z"
    and "getHexFromBN bnToStringHex z = Inr hx"
    and "cipher_aes256cbc L (encryptionKey (sharedSecretToKeys L (bufferFromHex hx)))
           (randomBytes16 rnd) (bufferFrom m) = Inr c"
  shows "encryptECIES L rnd publicKeyHex m =
     Inr \<lparr> iv = toStringHex (randomBytes16 rnd),
           ephemeralPK = toStringHex (encodeCompressed L (getPublic L (genKeyPair rnd))),
           cipherText = toStringHex c,
           mac = toStringHex (hmac_sha256 L (hmacKey (sharedSecretToKeys L (bufferFromHex hx)))
                   (randomBytes16 rnd @ encodeCompressed L (getPublic L (genKeyPair rnd)) @ c)),
           wasString = (case m of Str _ \<Rightarrow> True | Buf _ \<Rightarrow> False) \<rparr>"
  using assms
  by (simp add: encryptECIES_def thrown_def Let_def aes256CbcEncrypt_def hmacSha256_def)

lemma decryptECIES_unfold:
  assumes "keyFromPrivate L privateKeyHex = Inr ecSK"
    and "keyFromPublic L (ephemeralPK co) = Inr P"
    and "derive L ecSK P = Inr z"
    and "getHexFromBN bnToStringHex z = Inr hx"
  shows "decryptECIES L privateKeyHex co =
     (if bufferFromHex (mac co) =
           hmac_sha256 L (hmacKey (sharedSecretToKeys L (bufferFromHex hx)))
              (bufferFromHex (iv co) @ encodeCompressed L P @ bufferFromHex (cipherText co))
      then (case decipher_aes256cbc L (encryptionKey (sharedSecretToKeys L (bufferFromHex hx)))
                   (bufferFromHex (iv co)) (bufferFromHex (cipherText co)) of
              Inl msg \<Rightarrow> Inl (LibraryError msg)
            | Inr plainText \<Rightarrow>
                if wasString co then Inr (Str (toStringUtf8 plainText)) else Inr (Buf plainText))
      else Inl MacCheckFailed)"
  using assms
  by (simp add: decryptECIES_def thrown_def Let_def hmacSha256_def aes256CbcDecrypt_def
        equalConstTime_iff split: sum.splits)

lemma decryptECIES_Inr:
  assumes "decryptECIES L privateKeyHex co = Inr r"
  shows "\<exists>ecSK P z hx p.
           keyFromPrivate L privateKeyHex = Inr ecSK \<and>
           keyFromPublic L (ephemeralPK co) = Inr P \<and>
           derive L ecSK P = Inr z \<and>
           getHexFromBN bnToStringHex z = Inr hx \<and>
           bufferFromHex (mac co) =
             hmac_sha256 L (hmacKey (sharedSecretToKeys L (bufferFromHex hx)))
                (bufferFromHex (iv co) @ encodeCompressed L P @ bufferFromHex (cipherText co)) \<and>
           decipher_aes256cbc L (encryptionKey (sharedSecretToKeys L (bufferFromHex hx)))
             (bufferFromHex (iv co)) (bufferFromHex (cipherText co)) = Inr p \<and>
           r = (if wasString co then Str (toStringUtf8 p) else Buf p)"
proof -
  obtain ecSK where sk: "keyFromPrivate L privateKeyHex = Inr ecSK"
    using assms by (cases "keyFromPrivate L privateKeyHex") (simp_all add: decryptECIES_def thrown_def)
  obtain P where pk: "keyFromPublic L (ephemeralPK co) = Inr P"
    using assms sk
    by (cases "keyFromPublic L (ephemeralPK co)") (simp_all add: decryptECIES_def thrown_def)
  obtain z where dh: "derive L ecSK P = Inr z"
    using assms sk pk by (cases "derive L ecSK P") (simp_all add: decryptECIES_def thrown_def)
  obtain hx where hx: "getHexFromBN bnToStringHex z = Inr hx"
    using assms sk pk dh
    by (cases "getHexFromBN bnToStringHex z") (simp_all add: decryptECIES_def thrown_def)
  note u = decryptECIES_unfold [OF sk pk dh hx]
  have m: "bufferFromHex (mac co) =
             hmac_sha256 L (hmacKey (sharedSecretToKeys L (bufferFromHex hx)))
                (bufferFromHex (iv co) @ encodeCompressed L P @ bufferFromHex (cipherText co))"
    using assms unfolding u by (simp split: if_splits)
  obtain p where p: "decipher_aes256cbc L (encryptionKey (sharedSecretToKeys L (bufferFromHex hx)))
             (bufferFromHex (iv co)) (bufferFromHex (cipherText co)) = Inr p"
    using assms m unfolding u
    by (cases "decipher_aes256cbc L (encryptionKey (sharedSecretToKeys L (bufferFromHex hx)))
             (bufferFromHex (iv co)) (bufferFromHex (cipherText co))") simp_all
  have "r = (if wasString co then Str (toStringUtf8 p) else Buf p)"
    using assms m p unfolding u by (simp split: if_splits)
  then show ?thesis using sk pk dh hx m p by blast
qed

lemma other_decipher:
  "keyFromPrivate (L\<lparr>decipher_aes256cbc := D\<rparr>) = keyFromPrivate L"
  "keyFromPublic (L\<lparr>decipher_aes256cbc := D\<rparr>) = keyFromPublic L"
  "derive (L\<lparr>decipher_aes256cbc := D\<rparr>) = derive L"
  "encodeCompressed (L\<lparr>decipher_aes256cbc := D\<rparr>) = encodeCompressed L"
  "hmac_sha256 (L\<lparr>decipher_aes256cbc := D\<rparr>) = hmac_sha256 L"
  "sharedSecretToKeys (L\<lparr>decipher_aes256cbc := D\<rparr>) = sharedSecretToKeys L"
  by (simp_all add: sharedSecretToKeys_def fun_eq_iff)

text \<open>
  Decrypting what was encrypted gives the content back, a string after one pass through
  UTF-8. The hypotheses are the contracts of the libraries at the keys in use: the
  public key parses to the point of the private key, the compressed ephemeral point
  parses back to itself, both sides of the key agreement derive the same field element,
  SHA-512 digests have 64 bytes, and AES-256-CBC decryption inverts encryption under a
  32-byte key and a 16-byte initialization vector.
\<close>

lemma ecies_round_trip:
  assumes sk: "keyFromPrivate L privateKeyHex = Inr ecSK"
    and pk: "keyFromPublic L publicKeyHex = Inr (getPublic L ecSK)"
    and eph: "keyFromPublic L (toStringHex (encodeCompressed L (getPublic L (genKeyPair rnd))))
                = Inr (getPublic L (genKeyPair rnd))"
    and dh1: "derive L (genKeyPair rnd) (getPublic L ecSK) = Inr z"
    and dh2: "derive L ecSK (getPublic L (genKeyPair rnd)) = Inr z"
    and z: "z < 2 ^ 256"
    and sha: "\<forall>x. length (sha512 L x) = 64"
    and aes: "\<forall>key ivBuffer p. length key = 32 \<and> length ivBuffer = 16 \<longrightarrow>
                (\<exists>c. cipher_aes256cbc L key ivBuffer p = Inr c \<and>
                     decipher_aes256cbc L key ivBuffer c = Inr p)"
    and rnd: "length (randomBytes16 rnd) = 16"
  shows "\<exists>hx c co.
           getHexFromBN bnToStringHex z = Inr hx \<and>
           cipher_aes256cbc L (encryptionKey (sharedSecretToKeys L (bufferFromHex hx)))
             (randomBytes16 rnd) (bufferFrom m) = Inr c \<and>
           co = \<lparr> iv = toStringHex (randomBytes16 rnd),
                  ephemeralPK = toStringHex (encodeCompressed L (getPublic L (genKeyPair rnd))),
                  cipherText = toStringHex c,
                  mac = toStringHex
                          (hmac_sha256 L (hmacKey (sharedSecretToKeys L (bufferFromHex hx)))
                             (randomBytes16 rnd @
                              encodeCompressed L (getPublic L (genKeyPair rnd)) @ c)),
                  wasString = (case m of Str _ \<Rightarrow> True | Buf _ \<Rightarrow> False) \<rparr> \<and>
           encryptECIES L rnd publicKeyHex m = Inr co \<and>
           decryptECIES L privateKeyHex co =
             Inr (case m of Str s \<Rightarrow> Str (toStringUtf8 (bufferFromString s)) | Buf b \<Rightarrow> Buf b)"
proof -
  obtain hx where hx: "getHexFromBN bnToStringHex z = Inr hx"
    using getHexFromBN_field [OF z] by blast
  let ?keys = "sharedSecretToKeys L (bufferFromHex hx)"
  have klen: "length (encryptionKey ?keys) = 32"
    using sha by (simp add: length_encryptionKey)
  obtain c where c: "cipher_aes256cbc L (encryptionKey ?keys) (randomBytes16 rnd) (bufferFrom m) = Inr c"
    and d: "decipher_aes256cbc L (encryptionKey ?keys) (randomBytes16 rnd) c = Inr (bufferFrom m)"
    using aes klen rnd by blast
  let ?co = "\<lparr> iv = toStringHex (randomBytes16 rnd),
           ephemeralPK = toStringHex (encodeCompressed L (getPublic L (genKeyPair rnd))),
           cipherText = toStringHex c,
           mac = toStringHex (hmac_sha256 L (hmacKey ?keys)
                   (randomBytes16 rnd @ encodeCompressed L (getPublic L (genKeyPair rnd)) @ c)),
           wasString = (case m of Str _ \<Rightarrow> True | Buf _ \<Rightarrow> False) \<rparr>"
  have e: "encryptECIES L rnd publicKeyHex m = Inr ?co"
    by (rule encryptECIES_unfold [OF pk dh1 hx c])
  have eph': "keyFromPublic L (ephemeralPK ?co) = Inr (getPublic L (genKeyPair rnd))"
    using eph by simp
  have "decryptECIES L privateKeyHex ?co =
          Inr (case m of Str s \<Rightarrow> Str (toStringUtf8 (bufferFromString s)) | Buf b \<Rightarrow> Buf b)"
    by (subst decryptECIES_unfold [OF sk eph' dh2 hx])
       (simp add: bufferFromHex_toStringHex d split: content.splits)
  then show ?thesis using hx c e by blast
qed

text \<open>The round trip in the instance, for any content.\<close>

lemma demo_round_trip:
  "\<exists>hx c co.
     getHexFromBN bnToStringHex 26 = Inr hx \<and>
     cipher_aes256cbc demoLibrary
       (encryptionKey (sharedSecretToKeys demoLibrary (bufferFromHex hx)))
       (randomBytes16 demoEntropy) (bufferFrom m) = Inr c \<and>
     co = \<lparr> iv = toStringHex (randomBytes16 demoEntropy),
            ephemeralPK = toStringHex (encodeCompressed demoLibrary 385),
            cipherText = toStringHex c,
            mac = toStringHex
                    (hmac_sha256 demoLibrary
                       (hmacKey (sharedSecretToKeys demoLibrary (bufferFromHex hx)))
                       (randomBytes16 demoEntropy @ encodeCompressed demoLibrary 385 @ c)),
            wasString = (case m of Str _ \<Rightarrow> True | Buf _ \<Rightarrow> False) \<rparr> \<and>
     encryptECIES demoLibrary demoEntropy demoPublicKey m = Inr co \<and>
     decryptECIES demoLibrary demoPrivateKey co =
       Inr (case m of Str s \<Rightarrow> Str (toStringUtf8 (bufferFromString s)) | Buf b \<Rightarrow> Buf b)"
proof -
  have pk: "keyFromPublic demoLibrary demoPublicKey = Inr (getPublic demoLibrary 42)"
    by (simp add: demo_public demo_getPublic)
  have eph: "keyFromPublic demoLibrary
               (toStringHex (encodeCompressed demoLibrary
                  (getPublic demoLibrary (genKeyPair demoEntropy))))
             = Inr (getPublic demoLibrary (genKeyPair demoEntropy))"
    by (simp add: demo_entropy demo_getPublic demo_ephemeral)
  have dh1: "derive demoLibrary (genKeyPair demoEntropy) (getPublic demoLibrary 42) = Inr 26"
    by (simp add: demo_entropy demo_getPublic demo_derive)
  have dh2: "derive demoLibrary 42 (getPublic demoLibrary (genKeyPair demoEntropy)) = Inr 26"
    by (simp add: demo_entropy demo_getPublic demo_derive)
  have z: "(26::nat) < 2 ^ 256" by simp
  have sha: "\<forall>x. length (sha512 demoLibrary x) = 64" by (simp add: demo_sha512_length)
  have aes: "\<forall>key ivBuffer p. length key = 32 \<and> length ivBuffer = 16 \<longrightarrow>
                (\<exists>c. cipher_aes256cbc demoLibrary key ivBuffer p = Inr c \<and>
                     decipher_aes256cbc demoLibrary key ivBuffer c = Inr p)"
    using demo_cipher_inverse by blast
  show ?thesis
    using ecies_round_trip [OF demo_private pk eph dh1 dh2 z sha aes demo_entropy(2), of m]
    by (simp add: demo_entropy demo_getPublic)
qed

section \<open>The checksum of the instance tells a changed byte\<close>

text \<open>
  The checksum is a polynomial in the bytes modulo the prime 65521. Changing one byte
  changes it, whatever the length of the data: 257 is invertible modulo 65521
  (\<open>257 * 51499 = 202 * 65521 + 1\<close>), so each step is injective in the accumulator.
\<close>

lemma checksum_byte:
  fixes x y :: byte
  assumes "x \<noteq> y"
  shows "(a * 257 + unat x + 1) mod 65521 \<noteq> (a * 257 + unat y + 1) mod (65521::nat)"
proof -
  have bx: "unat x < 256" and "unat y < 256"
    using unsigned_less [of x] unsigned_less [of y] by simp_all
  have ne: "unat x \<noteq> unat y" using assms by (simp add: word_unat_eq_iff)
  have gen: "(A + u) mod 65521 \<noteq> (A + v) mod (65521::nat)" if "u < v" "v < 256" for A u v :: nat
  proof
    assume "(A + u) mod 65521 = (A + v) mod 65521"
    then have "(A + v) mod 65521 = (A + u) mod 65521" by simp
    moreover have "A + u \<le> A + v" using that by simp
    ultimately have "65521 dvd (A + v) - (A + u)"
      by (simp add: mod_eq_dvd_iff_nat)
    then have "(65521::nat) dvd v - u" by simp
    then have "65521 \<le> v - u" using that by (intro dvd_imp_le) simp_all
    then show False using that by simp
  qed
  show ?thesis
  proof (cases "unat x < unat y")
    case True
    then show ?thesis using gen [of "unat x" "unat y" "a * 257 + 1"] \<open>unat y < 256\<close>
      by (simp add: add.commute add.left_commute)
  next
    case False
    then have "unat y < unat x" using ne by simp
    then show ?thesis using gen [of "unat y" "unat x" "a * 257 + 1"] bx
      by (simp add: add.commute add.left_commute)
  qed
qed

lemma checksum_acc:
  fixes a b c :: nat
  assumes "a < 65521" "b < 65521" "a \<noteq> b"
  shows "(a * 257 + c) mod 65521 \<noteq> (b * 257 + c) mod 65521"
proof -
  have gen: "(u * 257 + c) mod 65521 \<noteq> (v * 257 + c) mod 65521"
    if "u < v" "v < 65521" for u v :: nat
  proof
    assume "(u * 257 + c) mod 65521 = (v * 257 + c) mod 65521"
    then have "(v * 257 + c) mod 65521 = (u * 257 + c) mod 65521" by simp
    moreover have "u * 257 + c \<le> v * 257 + c" using that by simp
    ultimately have "65521 dvd (v * 257 + c) - (u * 257 + c)"
      by (simp add: mod_eq_dvd_iff_nat)
    then have d: "(65521::nat) dvd (v - u) * 257" by (simp add: diff_mult_distrib)
    have "(65521::nat) dvd (v - u) * 257 * 51499" using d by (rule dvd_mult2)
    moreover have "(v - u) * 257 * 51499 = (v - u) * 202 * 65521 + (v - u)" by simp
    ultimately have "(65521::nat) dvd (v - u) * 202 * 65521 + (v - u)" by simp
    then have "(65521::nat) dvd v - u"
      by (subst (asm) dvd_add_right_iff) simp_all
    then have "65521 \<le> v - u" using that by (intro dvd_imp_le) simp_all
    then show False using that by simp
  qed
  show ?thesis
  proof (cases "a < b")
    case True
    then show ?thesis using gen assms by blast
  next
    case False
    then have "b < a" using assms by simp
    then show ?thesis using gen [of b a] assms by metis
  qed
qed


lemma checksum_bound:
  "xs \<noteq> [] \<Longrightarrow> foldl (\<lambda>a x. (a * 257 + unat x + 1) mod 65521) a xs < (65521::nat)"
  for xs :: buffer
  by (cases xs rule: rev_cases) simp_all

lemma checksum_inj_acc:
  fixes r :: buffer
  assumes "a < 65521" "b < 65521" "a \<noteq> b"
  shows "foldl (\<lambda>a x. (a * 257 + unat x + 1) mod 65521) a r \<noteq>
         foldl (\<lambda>a x. (a * 257 + unat x + 1) mod 65521) b r"
  using assms
proof (induction r arbitrary: a b)
  case Nil
  then show ?case by simp
next
  case (Cons x r)
  have "(a * 257 + (unat x + 1)) mod 65521 \<noteq> (b * 257 + (unat x + 1)) mod 65521"
    using Cons.prems by (rule checksum_acc)
  then have "(a * 257 + unat x + 1) mod 65521 \<noteq> (b * 257 + unat x + 1) mod 65521"
    by (simp add: add.assoc)
  moreover have "(a * 257 + unat x + 1) mod 65521 < 65521" by simp
  moreover have "(b * 257 + unat x + 1) mod 65521 < 65521" by simp
  ultimately show ?case using Cons.IH by simp
qed

lemma checksum_update:
  fixes xs :: buffer
  assumes "j < length xs" "y \<noteq> xs ! j"
  shows "foldl (\<lambda>a x. (a * 257 + unat x + 1) mod 65521) a (xs[j := y]) \<noteq>
         foldl (\<lambda>a x. (a * 257 + unat x + 1) mod 65521) a xs"
  using assms
proof (induction xs arbitrary: a j)
  case Nil
  then show ?case by simp
next
  case (Cons x xs)
  show ?case
  proof (cases j)
    case 0
    then have "y \<noteq> x" using Cons.prems by simp
    then have "(a * 257 + unat y + 1) mod 65521 \<noteq> (a * 257 + unat x + 1) mod 65521"
      by (rule checksum_byte)
    moreover have "(a * 257 + unat y + 1) mod 65521 < 65521" by simp
    moreover have "(a * 257 + unat x + 1) mod 65521 < 65521" by simp
    ultimately have
      "foldl (\<lambda>a x. (a * 257 + unat x + 1) mod 65521) ((a * 257 + unat y + 1) mod 65521) xs \<noteq>
       foldl (\<lambda>a x. (a * 257 + unat x + 1) mod 65521) ((a * 257 + unat x + 1) mod 65521) xs"
      by (intro checksum_inj_acc)
    then show ?thesis using 0 by simp
  next
    case (Suc k)
    then have "k < length xs" "y \<noteq> xs ! k" using Cons.prems by simp_all
    then show ?thesis using Cons.IH Suc by simp
  qed
qed

lemma bytesOfNat_mod:
  "bytesOfNat n x = bytesOfNat n y \<Longrightarrow> x mod 256 ^ n = y mod 256 ^ n"
proof (induction n arbitrary: x y)
  case 0
  then show ?case by simp
next
  case (Suc n)
  have sx: "bytesOfNat (Suc n) x = bytesOfNat n (x div 256) @ [of_nat (x mod 256)]"
    by (subst bytesOfNat.simps) simp
  have sy: "bytesOfNat (Suc n) y = bytesOfNat n (y div 256) @ [of_nat (y mod 256)]"
    by (subst bytesOfNat.simps) simp
  have eq: "bytesOfNat n (x div 256) = bytesOfNat n (y div 256)"
    and last: "(of_nat (x mod 256) :: byte) = of_nat (y mod 256)"
    using Suc.prems unfolding sx sy by simp_all
  have "unat (of_nat (x mod 256) :: byte) = unat (of_nat (y mod 256) :: byte)"
    using last by simp
  then have low: "x mod 256 = y mod 256" by (simp add: unat_of_nat)
  have high: "x div 256 mod 256 ^ n = y div 256 mod 256 ^ n"
    using Suc.IH [OF eq] .
  have "x mod (256 * 256 ^ n) = 256 * (x div 256 mod 256 ^ n) + x mod 256"
    by (rule mod_mult2_eq)
  moreover have "y mod (256 * 256 ^ n) = 256 * (y div 256 mod 256 ^ n) + y mod 256"
    by (rule mod_mult2_eq)
  ultimately show ?case using low high by simp
qed

lemma bytesOfNat_inj:
  assumes "bytesOfNat 32 x = bytesOfNat 32 y" "x < 65521" "y < 65521"
  shows "x = y"
proof -
  have "x mod 256 ^ 32 = y mod 256 ^ 32" using assms(1) by (rule bytesOfNat_mod)
  then show ?thesis using assms(2,3) by simp
qed

lemma demoDigest_update:
  assumes "j < length xs" "y \<noteq> xs ! j"
  shows "demoDigest 32 (xs[j := y]) \<noteq> demoDigest 32 xs"
proof
  assume "demoDigest 32 (xs[j := y]) = demoDigest 32 xs"
  moreover have "xs \<noteq> []" "xs[j := y] \<noteq> []" using assms(1) by auto
  ultimately have
    "foldl (\<lambda>a x. (a * 257 + unat x + 1) mod 65521) 0 (xs[j := y]) =
     foldl (\<lambda>a x. (a * 257 + unat x + 1) mod 65521) 0 xs"
    unfolding demoDigest_def by (intro bytesOfNat_inj checksum_bound)
  then show False using checksum_update [OF assms] by simp
qed

lemma demo_hmac_flip:
  assumes "i < 8 * length d"
  shows "hmac_sha256 demoLibrary k (flipBit i d) \<noteq> hmac_sha256 demoLibrary k d"
proof -
  obtain j y where j: "j < length d" and y: "y \<noteq> d ! j" and f: "flipBit i d = d[j := y]"
    using flipBit_update [OF assms] by blast
  have "k @ d[j := y] = (k @ d)[length k + j := y]"
    by (simp add: list_update_append)
  moreover have "length k + j < length (k @ d)" using j by simp
  moreover have "y \<noteq> (k @ d) ! (length k + j)" using y by (simp add: nth_append)
  ultimately have "demoDigest 32 (k @ d[j := y]) \<noteq> demoDigest 32 (k @ d)"
    using demoDigest_update [of "length k + j" "k @ d" y] by simp
  then show ?thesis by (simp add: demoLibrary_def f)
qed


section \<open>The claims about key derivation and the MAC check\<close>

text \<open>
  Claim C5. The key derivation has no failure mode (it returns the pair of keys, never
  an error) and is a function of the shared secret alone: the encryption key is the
  first 32 bytes of the SHA-512 digest of the secret and the MAC key is the rest,
  which are 32 bytes as the digest has 64; the same secret gives the same keys.
\<close>

theorem sharedSecretToKeys_splits_digest:
  "sharedSecretToKeys L s =
     \<lparr> encryptionKey = take 32 (sha512 L s), hmacKey = drop 32 (sha512 L s) \<rparr> \<and>
   (length (sha512 L s) = 64 \<longrightarrow>
      length (encryptionKey (sharedSecretToKeys L s)) = 32 \<and>
      length (hmacKey (sharedSecretToKeys L s)) = 32 \<and>
      encryptionKey (sharedSecretToKeys L s) @ hmacKey (sharedSecretToKeys L s) = sha512 L s) \<and>
   (s' = s \<longrightarrow> sharedSecretToKeys L s' = sharedSecretToKeys L s)"
  by (simp add: sharedSecretToKeys_eq)

theorem sharedSecretToKeys_splits_digest_witness:
  "length (sha512 demoLibrary [1, 2, 3]) = 64 \<and>
   length (encryptionKey (sharedSecretToKeys demoLibrary [1, 2, 3])) = 32 \<and>
   length (hmacKey (sharedSecretToKeys demoLibrary [1, 2, 3])) = 32 \<and>
   encryptionKey (sharedSecretToKeys demoLibrary [1, 2, 3]) @
     hmacKey (sharedSecretToKeys demoLibrary [1, 2, 3]) = sha512 demoLibrary [1, 2, 3]"
  using sharedSecretToKeys_splits_digest [of demoLibrary "[1, 2, 3]" "[1, 2, 3]"]
        demo_sha512_length [of "[1, 2, 3]"]
  by simp

text \<open>
  Claim C2. \<open>decryptECIES\<close> returns a plaintext only when the received MAC equals,
  byte for byte, the HMAC-SHA256 it recomputes under the derived MAC key over the
  initialization vector, the compressed ephemeral point and the ciphertext, in this
  order; the plaintext is then what the decipher returns for the ciphertext. When the
  received MAC differs from that HMAC, the result is the MAC-check error whatever the
  decipher function is: it is not called.
\<close>

theorem decryptECIES_mac_before_decipher:
  "(decryptECIES L privateKeyHex co = Inr r \<longrightarrow>
      (\<exists>ecSK P z hx p.
          keyFromPrivate L privateKeyHex = Inr ecSK \<and>
          keyFromPublic L (ephemeralPK co) = Inr P \<and>
          derive L ecSK P = Inr z \<and>
          getHexFromBN bnToStringHex z = Inr hx \<and>
          bufferFromHex (mac co) =
            hmac_sha256 L (hmacKey (sharedSecretToKeys L (bufferFromHex hx)))
               (bufferFromHex (iv co) @ encodeCompressed L P @ bufferFromHex (cipherText co)) \<and>
          decipher_aes256cbc L (encryptionKey (sharedSecretToKeys L (bufferFromHex hx)))
            (bufferFromHex (iv co)) (bufferFromHex (cipherText co)) = Inr p \<and>
          r = (if wasString co then Str (toStringUtf8 p) else Buf p))) \<and>
   (keyFromPrivate L privateKeyHex = Inr ecSK' \<and>
    keyFromPublic L (ephemeralPK co) = Inr P' \<and>
    derive L ecSK' P' = Inr z' \<and>
    getHexFromBN bnToStringHex z' = Inr hx' \<and>
    bufferFromHex (mac co) \<noteq>
      hmac_sha256 L (hmacKey (sharedSecretToKeys L (bufferFromHex hx')))
         (bufferFromHex (iv co) @ encodeCompressed L P' @ bufferFromHex (cipherText co)) \<longrightarrow>
    (\<forall>D. decryptECIES (L\<lparr>decipher_aes256cbc := D\<rparr>) privateKeyHex co = Inl MacCheckFailed))"
proof (intro conjI impI allI)
  assume "decryptECIES L privateKeyHex co = Inr r"
  then show "\<exists>ecSK P z hx p.
          keyFromPrivate L privateKeyHex = Inr ecSK \<and>
          keyFromPublic L (ephemeralPK co) = Inr P \<and>
          derive L ecSK P = Inr z \<and>
          getHexFromBN bnToStringHex z = Inr hx \<and>
          bufferFromHex (mac co) =
            hmac_sha256 L (hmacKey (sharedSecretToKeys L (bufferFromHex hx)))
               (bufferFromHex (iv co) @ encodeCompressed L P @ bufferFromHex (cipherText co)) \<and>
          decipher_aes256cbc L (encryptionKey (sharedSecretToKeys L (bufferFromHex hx)))
            (bufferFromHex (iv co)) (bufferFromHex (cipherText co)) = Inr p \<and>
          r = (if wasString co then Str (toStringUtf8 p) else Buf p)"
    by (rule decryptECIES_Inr)
next
  fix D
  assume a: "keyFromPrivate L privateKeyHex = Inr ecSK' \<and>
    keyFromPublic L (ephemeralPK co) = Inr P' \<and>
    derive L ecSK' P' = Inr z' \<and>
    getHexFromBN bnToStringHex z' = Inr hx' \<and>
    bufferFromHex (mac co) \<noteq>
      hmac_sha256 L (hmacKey (sharedSecretToKeys L (bufferFromHex hx')))
         (bufferFromHex (iv co) @ encodeCompressed L P' @ bufferFromHex (cipherText co))"
  show "decryptECIES (L\<lparr>decipher_aes256cbc := D\<rparr>) privateKeyHex co = Inl MacCheckFailed"
    using a decryptECIES_unfold [of "L\<lparr>decipher_aes256cbc := D\<rparr>" privateKeyHex ecSK' co P' z' hx']
    by (simp add: other_decipher)
qed

lemma demo_derive_static: "derive demoLibrary 42 210 = Inr 748"
  by (simp add: demoLibrary_def demoDerive_def)

lemma demo_text: "toStringUtf8 (bufferFromString [72, 105]) = [72, 105]"
proof -
  have "wellFormedUtf16 [72, 105]"
    by (simp add: isHighSurrogate_def isLowSurrogate_def)
  then show ?thesis by (rule toStringUtf8_bufferFromString)
qed

text \<open>
  The cipher object that the instance returns for the string \<^verbatim>\<open>'Hi'\<close>: its fields,
  and the keys and points that decryption goes through.
\<close>

lemma demo_encrypted_text:
  "\<exists>hx c co.
     getHexFromBN bnToStringHex 26 = Inr hx \<and>
     encryptECIES demoLibrary demoEntropy demoPublicKey (Str [72, 105]) = Inr co \<and>
     iv co = toStringHex (randomBytes16 demoEntropy) \<and>
     ephemeralPK co = toStringHex (encodeCompressed demoLibrary 385) \<and>
     cipherText co = toStringHex c \<and>
     mac co = toStringHex
                (hmac_sha256 demoLibrary
                   (hmacKey (sharedSecretToKeys demoLibrary (bufferFromHex hx)))
                   (randomBytes16 demoEntropy @ encodeCompressed demoLibrary 385 @ c)) \<and>
     wasString co \<and>
     decryptECIES demoLibrary demoPrivateKey co = Inr (Str [72, 105])"
  using demo_round_trip [of "Str [72, 105]"]
  by (auto simp: demo_text simp del: bufferFromString.simps)

lemma demo_round_trip_text:
  "\<exists>co. encryptECIES demoLibrary demoEntropy demoPublicKey (Str [72, 105]) = Inr co \<and>
        ephemeralPK co = toStringHex (encodeCompressed demoLibrary 385) \<and>
        decryptECIES demoLibrary demoPrivateKey co = Inr (Str [72, 105])"
  using demo_encrypted_text by blast

theorem decryptECIES_mac_before_decipher_witness:
  "\<exists>co. encryptECIES demoLibrary demoEntropy demoPublicKey (Str [72, 105]) = Inr co \<and>
         decryptECIES demoLibrary demoPrivateKey co = Inr (Str [72, 105]) \<and>
         (\<exists>ecSK P z hx p.
            keyFromPrivate demoLibrary demoPrivateKey = Inr ecSK \<and>
            keyFromPublic demoLibrary (ephemeralPK co) = Inr P \<and>
            derive demoLibrary ecSK P = Inr z \<and>
            getHexFromBN bnToStringHex z = Inr hx \<and>
            bufferFromHex (mac co) =
              hmac_sha256 demoLibrary
                 (hmacKey (sharedSecretToKeys demoLibrary (bufferFromHex hx)))
                 (bufferFromHex (iv co) @ encodeCompressed demoLibrary P @
                  bufferFromHex (cipherText co)) \<and>
            decipher_aes256cbc demoLibrary
              (encryptionKey (sharedSecretToKeys demoLibrary (bufferFromHex hx)))
              (bufferFromHex (iv co)) (bufferFromHex (cipherText co)) = Inr p \<and>
            Str [72, 105] = (if wasString co then Str (toStringUtf8 p) else Buf p)) \<and>
         length (flipBit 0 (bufferFromHex (mac co))) = 32 \<and>
         decryptECIES (demoLibrary\<lparr>decipher_aes256cbc := \<lambda>key ivBuffer c. Inr c\<rparr>)
           demoPrivateKey (co\<lparr>mac := toStringHex (flipBit 0 (bufferFromHex (mac co)))\<rparr>)
           = Inl MacCheckFailed"
proof -
  obtain hx c co where hx: "getHexFromBN bnToStringHex 26 = Inr hx"
    and enc: "encryptECIES demoLibrary demoEntropy demoPublicKey (Str [72, 105]) = Inr co"
    and f: "iv co = toStringHex (randomBytes16 demoEntropy)"
       "ephemeralPK co = toStringHex (encodeCompressed demoLibrary 385)"
       "cipherText co = toStringHex c"
       "mac co = toStringHex
                (hmac_sha256 demoLibrary
                   (hmacKey (sharedSecretToKeys demoLibrary (bufferFromHex hx)))
                   (randomBytes16 demoEntropy @ encodeCompressed demoLibrary 385 @ c))"
    and dec: "decryptECIES demoLibrary demoPrivateKey co = Inr (Str [72, 105])"
    using demo_encrypted_text by blast
  let ?macB = "hmac_sha256 demoLibrary
                   (hmacKey (sharedSecretToKeys demoLibrary (bufferFromHex hx)))
                   (randomBytes16 demoEntropy @ encodeCompressed demoLibrary 385 @ c)"
  let ?bad = "co\<lparr>mac := toStringHex (flipBit 0 (bufferFromHex (mac co)))\<rparr>"
  have first: "\<exists>ecSK P z hx p.
            keyFromPrivate demoLibrary demoPrivateKey = Inr ecSK \<and>
            keyFromPublic demoLibrary (ephemeralPK co) = Inr P \<and>
            derive demoLibrary ecSK P = Inr z \<and>
            getHexFromBN bnToStringHex z = Inr hx \<and>
            bufferFromHex (mac co) =
              hmac_sha256 demoLibrary
                 (hmacKey (sharedSecretToKeys demoLibrary (bufferFromHex hx)))
                 (bufferFromHex (iv co) @ encodeCompressed demoLibrary P @
                  bufferFromHex (cipherText co)) \<and>
            decipher_aes256cbc demoLibrary
              (encryptionKey (sharedSecretToKeys demoLibrary (bufferFromHex hx)))
              (bufferFromHex (iv co)) (bufferFromHex (cipherText co)) = Inr p \<and>
            Str [72, 105] = (if wasString co then Str (toStringUtf8 p) else Buf p)"
    using decryptECIES_mac_before_decipher
            [where L = demoLibrary and privateKeyHex = demoPrivateKey and co = co
               and r = "Str [72, 105]"] dec
    by blast
  have len: "length ?macB = 32" by (rule demo_hmac_length)
  then have "flipBit 0 ?macB \<noteq> ?macB" by (intro flipBit_changes) simp
  then have differs: "bufferFromHex (mac ?bad) \<noteq>
      hmac_sha256 demoLibrary (hmacKey (sharedSecretToKeys demoLibrary (bufferFromHex hx)))
         (bufferFromHex (iv ?bad) @ encodeCompressed demoLibrary 385 @
          bufferFromHex (cipherText ?bad))"
    by (simp add: f bufferFromHex_toStringHex)
  have pk: "keyFromPublic demoLibrary (ephemeralPK ?bad) = Inr 385"
    by (simp add: f demo_ephemeral)
  have second: "decryptECIES (demoLibrary\<lparr>decipher_aes256cbc := \<lambda>key ivBuffer c. Inr c\<rparr>)
                  demoPrivateKey ?bad = Inl MacCheckFailed"
    using decryptECIES_mac_before_decipher
            [where L = demoLibrary and privateKeyHex = demoPrivateKey and co = ?bad
               and ecSK' = 42 and P' = 385 and z' = 26 and hx' = hx]
          demo_private pk demo_derive(2) hx differs
    by blast
  have "length (flipBit 0 (bufferFromHex (mac co))) = 32"
    using len by (simp add: f bufferFromHex_toStringHex length_flipBit)
  then show ?thesis using enc dec first second by blast
qed

text \<open>
  Claim C9, as amended. When the private key and the ephemeral public key parse, the
  key agreement succeeds and its secret is encoded, the HMAC has 32 bytes as every
  HMAC-SHA256 does, and the \<open>mac\<close> field decodes to a number of bytes other than 32,
  \<open>decryptECIES\<close> fails with the MAC-check error, whatever the decipher function is.
\<close>

theorem decryptECIES_rejects_mac_of_other_length:
  assumes "keyFromPrivate L privateKeyHex = Inr ecSK"
    and "keyFromPublic L (ephemeralPK co) = Inr P"
    and "derive L ecSK P = Inr z"
    and "getHexFromBN bnToStringHex z = Inr hx"
    and "\<forall>key b. length (hmac_sha256 L key b) = 32"
    and "length (bufferFromHex (mac co)) \<noteq> 32"
  shows "decryptECIES L privateKeyHex co = Inl MacCheckFailed \<and>
         (\<forall>D. decryptECIES (L\<lparr>decipher_aes256cbc := D\<rparr>) privateKeyHex co = Inl MacCheckFailed)"
proof -
  have ne: "bufferFromHex (mac co) \<noteq>
              hmac_sha256 L (hmacKey (sharedSecretToKeys L (bufferFromHex hx)))
                 (bufferFromHex (iv co) @ encodeCompressed L P @ bufferFromHex (cipherText co))"
    using assms(5,6) by auto
  have "decryptECIES (L\<lparr>decipher_aes256cbc := D\<rparr>) privateKeyHex co = Inl MacCheckFailed" for D
    using decryptECIES_unfold [of "L\<lparr>decipher_aes256cbc := D\<rparr>" privateKeyHex ecSK co P z hx]
          assms(1-4) ne
    by (simp add: other_decipher)
  moreover have "decryptECIES L privateKeyHex co = Inl MacCheckFailed"
    using decryptECIES_unfold [OF assms(1-4)] ne by simp
  ultimately show ?thesis by blast
qed

text \<open>
  In the instance: the object encrypted for \<^verbatim>\<open>'Hi'\<close> with its \<open>mac\<close> replaced by the
  two characters \<^verbatim>\<open>'ab'\<close> (one byte), and with two code units U+0131 appended to
  its \<open>mac\<close> (33 bytes, as the decoder reads the low byte \<^verbatim>\<open>31\<close> of each).
\<close>

theorem decryptECIES_rejects_mac_of_other_length_witness:
  "\<exists>co. encryptECIES demoLibrary demoEntropy demoPublicKey (Str [72, 105]) = Inr co \<and>
     length (bufferFromHex (mac (co\<lparr>mac := [97, 98]\<rparr>))) = 1 \<and>
     decryptECIES demoLibrary demoPrivateKey (co\<lparr>mac := [97, 98]\<rparr>) = Inl MacCheckFailed \<and>
     length (bufferFromHex (mac (co\<lparr>mac := mac co @ [305, 305]\<rparr>))) = 33 \<and>
     decryptECIES demoLibrary demoPrivateKey (co\<lparr>mac := mac co @ [305, 305]\<rparr>)
       = Inl MacCheckFailed \<and>
     decryptECIES (demoLibrary\<lparr>decipher_aes256cbc := \<lambda>key ivBuffer c. Inr c\<rparr>) demoPrivateKey
       (co\<lparr>mac := mac co @ [305, 305]\<rparr>) = Inl MacCheckFailed"
proof -
  obtain hx c co where hx: "getHexFromBN bnToStringHex 26 = Inr hx"
    and enc: "encryptECIES demoLibrary demoEntropy demoPublicKey (Str [72, 105]) = Inr co"
    and epk: "ephemeralPK co = toStringHex (encodeCompressed demoLibrary 385)"
    and m: "mac co = toStringHex
                (hmac_sha256 demoLibrary
                   (hmacKey (sharedSecretToKeys demoLibrary (bufferFromHex hx)))
                   (randomBytes16 demoEntropy @ encodeCompressed demoLibrary 385 @ c))"
    using demo_encrypted_text by blast
  let ?short = "co\<lparr>mac := [97, 98]\<rparr>"
  let ?long = "co\<lparr>mac := mac co @ [305, 305]\<rparr>"
  have l1: "length (bufferFromHex (mac ?short)) = 1" by (simp add: unhex_def hexValue_def)
  have l33: "length (bufferFromHex (mac ?long)) = 33"
    by (simp add: m bufferFromHex_toStringHex_append unhex_def hexValue_def demo_hmac_length)
  have n1: "length (bufferFromHex (mac ?short)) \<noteq> 32" using l1 by simp
  have n33: "length (bufferFromHex (mac ?long)) \<noteq> 32" using l33 by simp
  have pk1: "keyFromPublic demoLibrary (ephemeralPK ?short) = Inr 385"
    by (simp add: epk demo_ephemeral)
  have pk33: "keyFromPublic demoLibrary (ephemeralPK ?long) = Inr 385"
    by (simp add: epk demo_ephemeral)
  have mac32: "\<forall>key b. length (hmac_sha256 demoLibrary key b) = 32"
    by (simp add: demo_hmac_length)
  show ?thesis
    using decryptECIES_rejects_mac_of_other_length
            [OF demo_private pk1 demo_derive(2) hx mac32 n1]
          decryptECIES_rejects_mac_of_other_length
            [OF demo_private pk33 demo_derive(2) hx mac32 n33]
          enc l1 l33
    by blast
qed

theorem decryptECIES_short_mac_counterexample:
  "length (bufferFromHex (mac \<lparr> iv = [], ephemeralPK = [122, 122], cipherText = [],
                               mac = [97, 98], wasString = False \<rparr>)) \<noteq> 32 \<and>
   decryptECIES demoLibrary demoPrivateKey
     \<lparr> iv = [], ephemeralPK = [122, 122], cipherText = [], mac = [97, 98], wasString = False \<rparr>
     = Inl (LibraryError ''Unknown point format'')"
proof -
  have "keyFromPublic demoLibrary [122, 122] = Inl ''Unknown point format''"
    by (simp add: demoLibrary_def demoKeyFromPublic_def unhex_def hexValue_def)
  then show ?thesis
    by (simp add: decryptECIES_def thrown_def demo_private unhex_def hexValue_def)
qed

text \<open>
  Claim C10. The MAC that \<open>decryptECIES\<close> recomputes covers the compressed encoding of
  the point that the \<open>ephemeralPK\<close> field parses to, not the field as received: the
  result of \<open>decryptECIES\<close> is given by comparing the received MAC with the HMAC-SHA256
  over the initialization vector, that encoding and the ciphertext, and replacing the
  field by any other encoding that parses to the same point leaves the result unchanged.
\<close>

theorem decryptECIES_mac_over_parsed_point:
  "(keyFromPrivate L privateKeyHex = Inr ecSK \<and>
    keyFromPublic L (ephemeralPK co) = Inr P \<and>
    derive L ecSK P = Inr z \<and>
    getHexFromBN bnToStringHex z = Inr hx \<longrightarrow>
    decryptECIES L privateKeyHex co =
      (if bufferFromHex (mac co) =
            hmac_sha256 L (hmacKey (sharedSecretToKeys L (bufferFromHex hx)))
               (bufferFromHex (iv co) @ encodeCompressed L P @ bufferFromHex (cipherText co))
       then (case decipher_aes256cbc L (encryptionKey (sharedSecretToKeys L (bufferFromHex hx)))
                    (bufferFromHex (iv co)) (bufferFromHex (cipherText co)) of
               Inl msg \<Rightarrow> Inl (LibraryError msg)
             | Inr plainText \<Rightarrow>
                 if wasString co then Inr (Str (toStringUtf8 plainText)) else Inr (Buf plainText))
       else Inl MacCheckFailed)) \<and>
   (keyFromPublic L other = keyFromPublic L (ephemeralPK co) \<longrightarrow>
    decryptECIES L privateKeyHex (co\<lparr>ephemeralPK := other\<rparr>) = decryptECIES L privateKeyHex co)"
proof (intro conjI impI)
  assume a: "keyFromPrivate L privateKeyHex = Inr ecSK \<and>
    keyFromPublic L (ephemeralPK co) = Inr P \<and>
    derive L ecSK P = Inr z \<and>
    getHexFromBN bnToStringHex z = Inr hx"
  show "decryptECIES L privateKeyHex co =
      (if bufferFromHex (mac co) =
            hmac_sha256 L (hmacKey (sharedSecretToKeys L (bufferFromHex hx)))
               (bufferFromHex (iv co) @ encodeCompressed L P @ bufferFromHex (cipherText co))
       then (case decipher_aes256cbc L (encryptionKey (sharedSecretToKeys L (bufferFromHex hx)))
                    (bufferFromHex (iv co)) (bufferFromHex (cipherText co)) of
               Inl msg \<Rightarrow> Inl (LibraryError msg)
             | Inr plainText \<Rightarrow>
                 if wasString co then Inr (Str (toStringUtf8 plainText)) else Inr (Buf plainText))
       else Inl MacCheckFailed)"
    using a decryptECIES_unfold [of L privateKeyHex ecSK co P z hx] by blast
next
  assume "keyFromPublic L other = keyFromPublic L (ephemeralPK co)"
  then show "decryptECIES L privateKeyHex (co\<lparr>ephemeralPK := other\<rparr>) =
             decryptECIES L privateKeyHex co"
    by (simp add: decryptECIES_def Let_def split: sum.splits)
qed

lemma demo_uncompressed_parses:
  "demoKeyFromPublic (toStringHex (4 # bytesOfNat 32 385 @ bytesOfNat 32 385)) = Inr 385"
  by code_simp

theorem decryptECIES_mac_over_parsed_point_witness:
  "\<exists>co hx.
     encryptECIES demoLibrary demoEntropy demoPublicKey (Str [72, 105]) = Inr co \<and>
     ephemeralPK co = toStringHex (encodeCompressed demoLibrary 385) \<and>
     keyFromPublic demoLibrary (toStringHex (4 # bytesOfNat 32 385 @ bytesOfNat 32 385)) =
       keyFromPublic demoLibrary (ephemeralPK co) \<and>
     decryptECIES demoLibrary demoPrivateKey
       (co\<lparr>ephemeralPK := toStringHex (4 # bytesOfNat 32 385 @ bytesOfNat 32 385)\<rparr>)
       = Inr (Str [72, 105]) \<and>
     getHexFromBN bnToStringHex 26 = Inr hx \<and>
     bufferFromHex (mac co) =
       hmac_sha256 demoLibrary (hmacKey (sharedSecretToKeys demoLibrary (bufferFromHex hx)))
          (bufferFromHex (iv co) @ encodeCompressed demoLibrary 385 @
           bufferFromHex (cipherText co))"
proof -
  obtain co where enc: "encryptECIES demoLibrary demoEntropy demoPublicKey (Str [72, 105]) = Inr co"
    and epk: "ephemeralPK co = toStringHex (encodeCompressed demoLibrary 385)"
    and dec: "decryptECIES demoLibrary demoPrivateKey co = Inr (Str [72, 105])"
    using demo_round_trip_text by blast
  obtain hx where hx: "getHexFromBN bnToStringHex 26 = Inr hx"
    using getHexFromBN_field [of 26] by auto
  let ?other = "toStringHex (4 # bytesOfNat 32 385 @ bytesOfNat 32 385)"
  have p: "keyFromPublic demoLibrary (ephemeralPK co) = Inr 385"
    by (simp add: epk demo_ephemeral)
  have same: "keyFromPublic demoLibrary ?other = keyFromPublic demoLibrary (ephemeralPK co)"
    using demo_uncompressed_parses by (simp add: p) (simp add: demoLibrary_def)
  note inst = decryptECIES_mac_over_parsed_point
               [where L = demoLibrary and privateKeyHex = demoPrivateKey and co = co
                  and ecSK = 42 and P = 385 and z = 26 and hx = hx and other = ?other]
  have "decryptECIES demoLibrary demoPrivateKey (co\<lparr>ephemeralPK := ?other\<rparr>) = Inr (Str [72, 105])"
    using inst same dec by simp
  moreover have "bufferFromHex (mac co) =
       hmac_sha256 demoLibrary (hmacKey (sharedSecretToKeys demoLibrary (bufferFromHex hx)))
          (bufferFromHex (iv co) @ encodeCompressed demoLibrary 385 @
           bufferFromHex (cipherText co))"
    using inst demo_private p demo_derive(2) hx dec
    by (auto split: if_splits)
  ultimately show ?thesis using enc epk same hx by blast
qed

section \<open>The round trip\<close>

text \<open>
  Claim C1, as amended. For a key pair, a fresh ephemeral key and initialization vector,
  and libraries that meet their contracts at these keys (the public key parses to the
  point of the private key, the compressed ephemeral point parses back to itself, both
  sides of the key agreement derive the same field element, SHA-512 digests have 64
  bytes, AES-256-CBC decryption inverts encryption), encryption succeeds and decrypting
  its result returns the content in its representation, for every byte buffer and for
  every string that is well-formed UTF-16.
\<close>

theorem decryptECIES_encryptECIES:
  assumes "keyFromPrivate L privateKeyHex = Inr ecSK"
    and "keyFromPublic L publicKeyHex = Inr (getPublic L ecSK)"
    and "keyFromPublic L (toStringHex (encodeCompressed L (getPublic L (genKeyPair rnd))))
           = Inr (getPublic L (genKeyPair rnd))"
    and "derive L (genKeyPair rnd) (getPublic L ecSK) = Inr z"
    and "derive L ecSK (getPublic L (genKeyPair rnd)) = Inr z"
    and "z < 2 ^ 256"
    and "\<forall>x. length (sha512 L x) = 64"
    and "\<forall>key ivBuffer p. length key = 32 \<and> length ivBuffer = 16 \<longrightarrow>
           (\<exists>c. cipher_aes256cbc L key ivBuffer p = Inr c \<and>
                decipher_aes256cbc L key ivBuffer c = Inr p)"
    and "length (randomBytes16 rnd) = 16"
    and "case m of Str s \<Rightarrow> wellFormedUtf16 s | Buf b \<Rightarrow> True"
  shows "\<exists>co. encryptECIES L rnd publicKeyHex m = Inr co \<and>
              wasString co = (case m of Str s \<Rightarrow> True | Buf b \<Rightarrow> False) \<and>
              decryptECIES L privateKeyHex co = Inr m"
proof -
  have "(case m of Str s \<Rightarrow> Str (toStringUtf8 (bufferFromString s)) | Buf b \<Rightarrow> Buf b) = m"
    using assms(10) by (cases m) (simp_all add: toStringUtf8_bufferFromString)
  then show ?thesis
    using ecies_round_trip [OF assms(1-9), of m] by auto
qed

theorem decryptECIES_encryptECIES_witness:
  "(\<exists>co. encryptECIES demoLibrary demoEntropy demoPublicKey (Str [72, 105]) = Inr co \<and>
         wasString co = True \<and>
         decryptECIES demoLibrary demoPrivateKey co = Inr (Str [72, 105])) \<and>
   (\<exists>co. encryptECIES demoLibrary demoEntropy demoPublicKey (Buf [0, 255]) = Inr co \<and>
         wasString co = False \<and>
         decryptECIES demoLibrary demoPrivateKey co = Inr (Buf [0, 255]))"
proof -
  have pk: "keyFromPublic demoLibrary demoPublicKey = Inr (getPublic demoLibrary 42)"
    by (simp add: demo_public demo_getPublic)
  have eph: "keyFromPublic demoLibrary
               (toStringHex (encodeCompressed demoLibrary
                  (getPublic demoLibrary (genKeyPair demoEntropy))))
             = Inr (getPublic demoLibrary (genKeyPair demoEntropy))"
    by (simp add: demo_entropy demo_getPublic demo_ephemeral)
  have dh1: "derive demoLibrary (genKeyPair demoEntropy) (getPublic demoLibrary 42) = Inr 26"
    by (simp add: demo_entropy demo_getPublic demo_derive)
  have dh2: "derive demoLibrary 42 (getPublic demoLibrary (genKeyPair demoEntropy)) = Inr 26"
    by (simp add: demo_entropy demo_getPublic demo_derive)
  have z: "(26::nat) < 2 ^ 256" by simp
  have sha: "\<forall>x. length (sha512 demoLibrary x) = 64" by (simp add: demo_sha512_length)
  have aes: "\<forall>key ivBuffer p. length key = 32 \<and> length ivBuffer = 16 \<longrightarrow>
                (\<exists>c. cipher_aes256cbc demoLibrary key ivBuffer p = Inr c \<and>
                     decipher_aes256cbc demoLibrary key ivBuffer c = Inr p)"
    using demo_cipher_inverse by blast
  have wf: "case Str [72, 105] of Str s \<Rightarrow> wellFormedUtf16 s | Buf b \<Rightarrow> True"
    by (simp add: isHighSurrogate_def isLowSurrogate_def)
  have any: "case Buf [0, 255] of Str s \<Rightarrow> wellFormedUtf16 s | Buf b \<Rightarrow> True"
    by simp
  show ?thesis
    using decryptECIES_encryptECIES [OF demo_private pk eph dh1 dh2 z sha aes demo_entropy(2) wf]
          decryptECIES_encryptECIES [OF demo_private pk eph dh1 dh2 z sha aes demo_entropy(2) any]
    by simp
qed

theorem decryptECIES_encryptECIES_counterexample:
  "(\<exists>co. encryptECIES demoLibrary demoEntropy demoPublicKey (Str [55296]) = Inr co \<and>
         decryptECIES demoLibrary demoPrivateKey co = Inr (Str [65533])) \<and>
   Str [65533] \<noteq> Str [55296]"
proof -
  have "toStringUtf8 (bufferFromString [55296]) = [65533]"
    by (simp add: isHighSurrogate_def isLowSurrogate_def utf8Bytes_def inRange_def codeUnits_def)
  then show ?thesis
    using demo_round_trip [of "Str [55296]"]
    by (auto simp del: bufferFromString.simps)
qed

section \<open>ECDSA\<close>

lemma verifyECDSA_unfold:
  "keyFromPublic L publicKeyHex = Inr P \<Longrightarrow>
   verifyECDSA L m publicKeyHex signatureHex =
     thrown (verifySignature L P (sha256 L (bufferFrom m)) signatureHex)"
  by (simp add: verifyECDSA_def thrown_def Let_def)

lemma verifyECDSA_same_digest:
  "sha256 L (bufferFrom m') = sha256 L (bufferFrom m) \<Longrightarrow>
   verifyECDSA L m' publicKeyHex signatureHex = verifyECDSA L m publicKeyHex signatureHex"
  by (simp add: verifyECDSA_def Let_def split: sum.splits)

text \<open>
  A digest of fixed length cannot tell all buffers apart: there are infinitely many
  buffers and finitely many digests.
\<close>

lemma digest_collision:
  fixes H :: "buffer \<Rightarrow> buffer"
  assumes "\<forall>x. length (H x) = n"
  shows "\<exists>x y. x \<noteq> y \<and> H x = H y"
proof (rule ccontr)
  assume "\<not> (\<exists>x y. x \<noteq> y \<and> H x = H y)"
  then have "inj H" by (auto simp: inj_on_def)
  have "range H \<subseteq> {b. set b \<subseteq> UNIV \<and> length b = n}" using assms by auto
  moreover have "finite {b :: buffer. set b \<subseteq> UNIV \<and> length b = n}"
    by (rule finite_lists_length_eq) simp
  ultimately have "finite (range H)" by (rule finite_subset)
  then have "finite (UNIV :: buffer set)" using \<open>inj H\<close> by (rule finite_imageD)
  then show False by (simp add: infinite_UNIV_listI)
qed

section \<open>The instance as a signature scheme\<close>

lemma demo_verify_signed:
  "demoVerifySignature Q h' (toStringHex (bytesOfNat 32 P @ h)) =
     Inr (bytesOfNat 32 P @ h = bytesOfNat 32 Q @ h')"
  by (simp add: demoVerifySignature_def bufferFromHex_toStringHex length_toStringHex
        length_bytesOfNat)

lemma demo_verify_malformed: "demoVerifySignature Q h [122, 122] = Inl ''Signature without r or s''"
  by (simp add: demoVerifySignature_def unhex_def hexValue_def)


lemma demo_points_differ: "P < 1009 \<Longrightarrow> Q < 1009 \<Longrightarrow> P \<noteq> Q \<Longrightarrow> bytesOfNat 32 P \<noteq> bytesOfNat 32 Q"
  using bytesOfNat_inj [of P Q] by auto


lemma demo_digest_text:
  "demoDigest 32 (bufferFromString [72, 105]) = bytesOfNat 32 18867"
  "demoDigest 32 (bufferFromString [72, 106]) = bytesOfNat 32 18868"
  by (simp_all add: demoDigest_def isHighSurrogate_def isLowSurrogate_def utf8Bytes_def)


lemma demo_own_public: "getPublicKeyFromPrivate demoLibrary demoPrivateKey = Inr demoPublicKey"
  using demo_private
  by (simp add: demoLibrary_def demoKeyFromPrivate_def demoPublicKey_def demoGetPublic_def)




lemma lax_off_curve:
  "laxKeyFromPublic (toStringHex (4 # bytesOfNat 32 385 @ bytesOfNat 32 0)) = Inr 385"
  "demoKeyFromPublic (toStringHex (4 # bytesOfNat 32 385 @ bytesOfNat 32 0)) =
     Inl ''Unknown point format''"
  by code_simp+

section \<open>The claims about signatures\<close>

text \<open>
  Claim C8, as amended. \<open>verifyECDSA\<close> checks neither the key nor the signature itself
  and has no handler. It fails exactly when the curve library throws on the public key
  or on the signature, with the library's error; it returns a boolean exactly when
  the key parsed and the library's verification returned that boolean. A malformed
  key or signature that the library does not reject gets the library's verdict.
\<close>

theorem verifyECDSA_raises_what_the_library_raises:
  "(keyFromPublic L publicKeyHex = Inl msg \<longrightarrow>
      verifyECDSA L m publicKeyHex signatureHex = Inl (LibraryError msg)) \<and>
   (keyFromPublic L publicKeyHex = Inr P \<and>
    verifySignature L P (sha256 L (bufferFrom m)) signatureHex = Inl msg' \<longrightarrow>
      verifyECDSA L m publicKeyHex signatureHex = Inl (LibraryError msg')) \<and>
   (verifyECDSA L m publicKeyHex signatureHex = Inl e \<longrightarrow>
      (\<exists>msg. e = LibraryError msg \<and>
         (keyFromPublic L publicKeyHex = Inl msg \<or>
          (\<exists>Q. keyFromPublic L publicKeyHex = Inr Q \<and>
               verifySignature L Q (sha256 L (bufferFrom m)) signatureHex = Inl msg)))) \<and>
   (verifyECDSA L m publicKeyHex signatureHex = Inr b \<longrightarrow>
      (\<exists>Q. keyFromPublic L publicKeyHex = Inr Q \<and>
           verifySignature L Q (sha256 L (bufferFrom m)) signatureHex = Inr b))"
  by (auto simp: verifyECDSA_def thrown_def Let_def split: sum.splits)

theorem verifyECDSA_raises_what_the_library_raises_witness:
  "keyFromPublic demoLibrary [122, 122] = Inl ''Unknown point format'' \<and>
   verifyECDSA demoLibrary (Str [72, 105]) [122, 122] [122, 122] =
     Inl (LibraryError ''Unknown point format'') \<and>
   verifySignature demoLibrary 210 (sha256 demoLibrary (bufferFrom (Str [72, 105]))) [122, 122] =
     Inl ''Signature without r or s'' \<and>
   verifyECDSA demoLibrary (Str [72, 105]) demoPublicKey [122, 122] =
     Inl (LibraryError ''Signature without r or s'') \<and>
   verifyECDSA demoLibrary (Str [72, 105]) demoPublicKey (toStringHex (bytesOfNat 32 210)) =
     Inr False \<and>
   (\<exists>Q. keyFromPublic demoLibrary demoPublicKey = Inr Q \<and>
        verifySignature demoLibrary Q (sha256 demoLibrary (bufferFrom (Str [72, 105])))
          (toStringHex (bytesOfNat 32 210)) = Inr False)"
proof -
  have bad: "keyFromPublic demoLibrary [122, 122] = Inl ''Unknown point format''"
    by (simp add: demoLibrary_def demoKeyFromPublic_def unhex_def hexValue_def)
  have sg: "verifySignature demoLibrary 210 (sha256 demoLibrary (bufferFrom (Str [72, 105])))
              [122, 122] = Inl ''Signature without r or s''"
    by (simp add: demoLibrary_def demo_verify_malformed)
  have "demoDigest 32 b \<noteq> []" for b
    using length_demoDigest [of 32 b] by auto
  then have no: "verifySignature demoLibrary 210 (sha256 demoLibrary (bufferFrom (Str [72, 105])))
              (toStringHex (bytesOfNat 32 210)) = Inr False"
    using demo_verify_signed [of 210 _ 210 "[]"] by (simp add: demoLibrary_def)
  then have ret: "verifyECDSA demoLibrary (Str [72, 105]) demoPublicKey
                    (toStringHex (bytesOfNat 32 210)) = Inr False"
    by (simp add: verifyECDSA_unfold [OF demo_public] thrown_def)
  have r1: "verifyECDSA demoLibrary (Str [72, 105]) [122, 122] [122, 122] =
              Inl (LibraryError ''Unknown point format'')"
    using verifyECDSA_raises_what_the_library_raises
            [where L = demoLibrary and publicKeyHex = "[122, 122]" and m = "Str [72, 105]"
               and signatureHex = "[122, 122]" and msg = "''Unknown point format''"
               and P = 0 and msg' = "[]" and e = BNTooLarge and b = False]
          bad
    by blast
  have r2: "verifyECDSA demoLibrary (Str [72, 105]) demoPublicKey [122, 122] =
              Inl (LibraryError ''Signature without r or s'')"
    using verifyECDSA_raises_what_the_library_raises
            [where L = demoLibrary and publicKeyHex = demoPublicKey and m = "Str [72, 105]"
               and signatureHex = "[122, 122]" and msg = "[]" and P = 210
               and msg' = "''Signature without r or s''" and e = BNTooLarge and b = False]
          demo_public sg
    by blast
  have r3: "\<exists>Q. keyFromPublic demoLibrary demoPublicKey = Inr Q \<and>
        verifySignature demoLibrary Q (sha256 demoLibrary (bufferFrom (Str [72, 105])))
          (toStringHex (bytesOfNat 32 210)) = Inr False"
    using verifyECDSA_raises_what_the_library_raises
            [where L = demoLibrary and publicKeyHex = demoPublicKey and m = "Str [72, 105]"
               and signatureHex = "toStringHex (bytesOfNat 32 210)" and msg = "[]" and P = 210
               and msg' = "[]" and e = BNTooLarge and b = False]
          ret
    by blast
  show ?thesis using bad sg ret r1 r2 r3 by blast
qed

text \<open>
  The key \<^verbatim>\<open>04\<close>, 385, 0 is no point (the strict instance rejects it), the second
  instance takes it as the curve library takes an uncompressed key off the curve, and
  \<open>verifyECDSA\<close> then answers false for a signature that \<open>signECDSA\<close> made: it does not
  fail.
\<close>

theorem verifyECDSA_malformed_key_counterexample:
  "keyFromPublic demoLibrary (toStringHex (4 # bytesOfNat 32 385 @ bytesOfNat 32 0)) =
     Inl ''Unknown point format'' \<and>
   signECDSA laxLibrary demoPrivateKey (Str [72, 105]) =
     Inr \<lparr> signature = toStringHex (bytesOfNat 32 210 @ bytesOfNat 32 18867),
           publicKey = demoPublicKey \<rparr> \<and>
   verifyECDSA laxLibrary (Str [72, 105])
     (toStringHex (4 # bytesOfNat 32 385 @ bytesOfNat 32 0))
     (toStringHex (bytesOfNat 32 210 @ bytesOfNat 32 18867)) = Inr False"
proof -
  have strict: "keyFromPublic demoLibrary (toStringHex (4 # bytesOfNat 32 385 @ bytesOfNat 32 0)) =
     Inl ''Unknown point format''"
    using lax_off_curve(2) by (simp add: demoLibrary_def)
  have "signToDER laxLibrary 42 (sha256 laxLibrary (bufferFrom (Str [72, 105]))) =
          Inr (toStringHex (bytesOfNat 32 210 @ bytesOfNat 32 18867))"
    by (simp add: laxLibrary_def demoLibrary_def demoSignToDER_def demoGetPublic_def
          demo_digest_text del: bufferFromString.simps)
  moreover have "keyFromPrivate laxLibrary demoPrivateKey = Inr 42"
    using demo_private by (simp add: laxLibrary_def)
  moreover have "getPublicKeyFromPrivate laxLibrary demoPrivateKey = Inr demoPublicKey"
    using demo_own_public by (simp add: laxLibrary_def)
  ultimately have sign: "signECDSA laxLibrary demoPrivateKey (Str [72, 105]) =
     Inr \<lparr> signature = toStringHex (bytesOfNat 32 210 @ bytesOfNat 32 18867),
           publicKey = demoPublicKey \<rparr>"
    by (simp add: signECDSA_def thrown_def Let_def del: bufferFromString.simps)
  have parsed: "keyFromPublic laxLibrary (toStringHex (4 # bytesOfNat 32 385 @ bytesOfNat 32 0)) =
                  Inr 385"
    using lax_off_curve(1) by (simp add: laxLibrary_def)
  have "bytesOfNat 32 210 \<noteq> bytesOfNat 32 385"
    using demo_points_differ [of 210 385] by simp
  then have "verifySignature laxLibrary 385 (sha256 laxLibrary (bufferFrom (Str [72, 105])))
          (toStringHex (bytesOfNat 32 210 @ bytesOfNat 32 18867)) = Inr False"
    by (simp add: laxLibrary_def demoLibrary_def demo_verify_signed length_bytesOfNat
          del: bufferFromString.simps)
  then have "verifyECDSA laxLibrary (Str [72, 105])
     (toStringHex (4 # bytesOfNat 32 385 @ bytesOfNat 32 0))
     (toStringHex (bytesOfNat 32 210 @ bytesOfNat 32 18867)) = Inr False"
    by (simp only: verifyECDSA_unfold [OF parsed] thrown_def sum.case)
  then show ?thesis using strict sign by blast
qed

text \<open>
  No key pair has both properties at once, that every content verifies under the
  signature made for it and that every other content is rejected under it, whatever the
  libraries are, as long as SHA-256 returns 32 bytes.
\<close>

lemma verifyECDSA_cannot_separate_all_content:
  "\<not> (\<exists>(L :: ('sk, 'pt) primitives) privateKeyHex publicKeyHex.
         (\<forall>x. length (sha256 L x) = 32) \<and>
         (\<forall>m. \<exists>s. signECDSA L privateKeyHex m = Inr s \<and>
                   verifyECDSA L m publicKeyHex (signature s) = Inr True \<and>
                   (\<forall>m'. m' \<noteq> m \<longrightarrow>
                         verifyECDSA L m' publicKeyHex (signature s) = Inr False)))"
proof
  assume "\<exists>(L :: ('sk, 'pt) primitives) privateKeyHex publicKeyHex.
         (\<forall>x. length (sha256 L x) = 32) \<and>
         (\<forall>m. \<exists>s. signECDSA L privateKeyHex m = Inr s \<and>
                   verifyECDSA L m publicKeyHex (signature s) = Inr True \<and>
                   (\<forall>m'. m' \<noteq> m \<longrightarrow>
                         verifyECDSA L m' publicKeyHex (signature s) = Inr False))"
  then obtain L :: "('sk, 'pt) primitives" and privateKeyHex publicKeyHex
    where len: "\<forall>x. length (sha256 L x) = 32"
      and all: "\<forall>m. \<exists>s. signECDSA L privateKeyHex m = Inr s \<and>
                   verifyECDSA L m publicKeyHex (signature s) = Inr True \<and>
                   (\<forall>m'. m' \<noteq> m \<longrightarrow>
                         verifyECDSA L m' publicKeyHex (signature s) = Inr False)"
    by blast
  obtain x y where xy: "x \<noteq> y" "sha256 L x = sha256 L y"
    using digest_collision [OF len] by blast
  have "\<exists>s. signECDSA L privateKeyHex (Buf x) = Inr s \<and>
             verifyECDSA L (Buf x) publicKeyHex (signature s) = Inr True \<and>
             (\<forall>m'. m' \<noteq> Buf x \<longrightarrow>
                   verifyECDSA L m' publicKeyHex (signature s) = Inr False)"
    using all by (rule spec)
  then obtain s where s: "signECDSA L privateKeyHex (Buf x) = Inr s \<and>
             verifyECDSA L (Buf x) publicKeyHex (signature s) = Inr True \<and>
             (\<forall>m'. m' \<noteq> Buf x \<longrightarrow>
                   verifyECDSA L m' publicKeyHex (signature s) = Inr False)" ..
  note t = s [THEN conjunct2, THEN conjunct1] and f = s [THEN conjunct2, THEN conjunct2]
  have "verifyECDSA L (Buf y) publicKeyHex (signature s) = Inr False"
    using f xy(1) by simp
  moreover have "verifyECDSA L (Buf y) publicKeyHex (signature s) =
                 verifyECDSA L (Buf x) publicKeyHex (signature s)"
    using xy(2) by (intro verifyECDSA_same_digest) simp
  ultimately show False using t by simp
qed




section \<open>Tampering with a cipher object\<close>

text \<open>
  An HMAC that gives distinct data distinct MACs changes with every flipped bit of the
  data. No function with 32-byte results does so for all data; the theorem below asks
  it of the single-bit changes of the data of one encryption only.
\<close>

lemma injective_hmac_is_sensitive:
  assumes "inj (hmac_sha256 L K)" and "i < 8 * length d"
  shows "hmac_sha256 L K (flipBit i d) \<noteq> hmac_sha256 L K d"
proof
  assume "hmac_sha256 L K (flipBit i d) = hmac_sha256 L K d"
  with assms(1) have "flipBit i d = d" by (rule injD)
  then show False using flipBit_changes [OF assms(2)] by simp
qed

text \<open>
  Claim C3, as amended. For a cipher object returned by \<open>encryptECIES\<close> (under the
  contracts of the round trip), with \<open>ivB\<close>, \<open>E\<close>, \<open>c\<close> and \<open>macB\<close> the bytes of its four
  fields and \<open>K\<close> the MAC key, and an HMAC-SHA256 that no single flipped bit of the
  authenticated data \<open>ivB @ E @ c\<close> leaves unchanged:
  \<^item> flipping any bit of \<open>mac\<close>, of \<open>iv\<close> or of \<open>cipherText\<close> makes \<open>decryptECIES\<close> fail
    with the MAC-check error;
  \<^item> flipping a bit of \<open>ephemeralPK\<close> makes it fail with the library's error when the
    changed key does not parse, and with the MAC-check error when it parses, the key
    agreement succeeds, and the HMAC then recomputed differs from the received one.
\<close>

theorem decryptECIES_rejects_flipped_bit:
  assumes "keyFromPrivate L privateKeyHex = Inr ecSK"
    and "keyFromPublic L publicKeyHex = Inr (getPublic L ecSK)"
    and "keyFromPublic L (toStringHex (encodeCompressed L (getPublic L (genKeyPair rnd))))
           = Inr (getPublic L (genKeyPair rnd))"
    and "derive L (genKeyPair rnd) (getPublic L ecSK) = Inr z"
    and "derive L ecSK (getPublic L (genKeyPair rnd)) = Inr z"
    and "z < 2 ^ 256"
    and "\<forall>x. length (sha512 L x) = 64"
    and "\<forall>key ivBuffer p. length key = 32 \<and> length ivBuffer = 16 \<longrightarrow>
           (\<exists>c. cipher_aes256cbc L key ivBuffer p = Inr c \<and>
                decipher_aes256cbc L key ivBuffer c = Inr p)"
    and "length (randomBytes16 rnd) = 16"
    and "\<forall>hx c i.
           getHexFromBN bnToStringHex z = Inr hx \<and>
           cipher_aes256cbc L (encryptionKey (sharedSecretToKeys L (bufferFromHex hx)))
             (randomBytes16 rnd) (bufferFrom m) = Inr c \<and>
           i < 8 * length (randomBytes16 rnd @
                           encodeCompressed L (getPublic L (genKeyPair rnd)) @ c) \<longrightarrow>
           hmac_sha256 L (hmacKey (sharedSecretToKeys L (bufferFromHex hx)))
             (flipBit i (randomBytes16 rnd @
                         encodeCompressed L (getPublic L (genKeyPair rnd)) @ c)) \<noteq>
           hmac_sha256 L (hmacKey (sharedSecretToKeys L (bufferFromHex hx)))
             (randomBytes16 rnd @ encodeCompressed L (getPublic L (genKeyPair rnd)) @ c)"
  shows "\<exists>hx c co ivB E K macB.
           getHexFromBN bnToStringHex z = Inr hx \<and>
           cipher_aes256cbc L (encryptionKey (sharedSecretToKeys L (bufferFromHex hx)))
             (randomBytes16 rnd) (bufferFrom m) = Inr c \<and>
           ivB = randomBytes16 rnd \<and>
           E = encodeCompressed L (getPublic L (genKeyPair rnd)) \<and>
           K = hmacKey (sharedSecretToKeys L (bufferFromHex hx)) \<and>
           macB = hmac_sha256 L K (ivB @ E @ c) \<and>
           co = \<lparr> iv = toStringHex ivB, ephemeralPK = toStringHex E,
                  cipherText = toStringHex c, mac = toStringHex macB,
                  wasString = (case m of Str _ \<Rightarrow> True | Buf _ \<Rightarrow> False) \<rparr> \<and>
           encryptECIES L rnd publicKeyHex m = Inr co \<and>
           (\<forall>i. i < 8 * length macB \<longrightarrow>
                decryptECIES L privateKeyHex (co\<lparr>mac := toStringHex (flipBit i macB)\<rparr>)
                  = Inl MacCheckFailed) \<and>
           (\<forall>i. i < 8 * length ivB \<longrightarrow>
                decryptECIES L privateKeyHex (co\<lparr>iv := toStringHex (flipBit i ivB)\<rparr>)
                  = Inl MacCheckFailed) \<and>
           (\<forall>i. i < 8 * length c \<longrightarrow>
                decryptECIES L privateKeyHex (co\<lparr>cipherText := toStringHex (flipBit i c)\<rparr>)
                  = Inl MacCheckFailed) \<and>
           (\<forall>i msg. keyFromPublic L (toStringHex (flipBit i E)) = Inl msg \<longrightarrow>
                decryptECIES L privateKeyHex (co\<lparr>ephemeralPK := toStringHex (flipBit i E)\<rparr>)
                  = Inl (LibraryError msg)) \<and>
           (\<forall>i Q z' hx'.
                keyFromPublic L (toStringHex (flipBit i E)) = Inr Q \<and>
                derive L ecSK Q = Inr z' \<and>
                getHexFromBN bnToStringHex z' = Inr hx' \<and>
                hmac_sha256 L (hmacKey (sharedSecretToKeys L (bufferFromHex hx')))
                  (ivB @ encodeCompressed L Q @ c) \<noteq> macB \<longrightarrow>
                decryptECIES L privateKeyHex (co\<lparr>ephemeralPK := toStringHex (flipBit i E)\<rparr>)
                  = Inl MacCheckFailed)"
proof -
  obtain hx c co where hx: "getHexFromBN bnToStringHex z = Inr hx"
    and c: "cipher_aes256cbc L (encryptionKey (sharedSecretToKeys L (bufferFromHex hx)))
              (randomBytes16 rnd) (bufferFrom m) = Inr c"
    and co: "co = \<lparr> iv = toStringHex (randomBytes16 rnd),
                  ephemeralPK = toStringHex (encodeCompressed L (getPublic L (genKeyPair rnd))),
                  cipherText = toStringHex c,
                  mac = toStringHex
                          (hmac_sha256 L (hmacKey (sharedSecretToKeys L (bufferFromHex hx)))
                             (randomBytes16 rnd @
                              encodeCompressed L (getPublic L (genKeyPair rnd)) @ c)),
                  wasString = (case m of Str _ \<Rightarrow> True | Buf _ \<Rightarrow> False) \<rparr>"
    and e: "encryptECIES L rnd publicKeyHex m = Inr co"
    using ecies_round_trip [OF assms(1-9), of m] by blast
  define ivB where "ivB = randomBytes16 rnd"
  define E where "E = encodeCompressed L (getPublic L (genKeyPair rnd))"
  define K where "K = hmacKey (sharedSecretToKeys L (bufferFromHex hx))"
  define macB where "macB = hmac_sha256 L K (ivB @ E @ c)"
  have co': "co = \<lparr> iv = toStringHex ivB, ephemeralPK = toStringHex E,
                  cipherText = toStringHex c, mac = toStringHex macB,
                  wasString = (case m of Str _ \<Rightarrow> True | Buf _ \<Rightarrow> False) \<rparr>"
    by (simp add: co ivB_def E_def K_def macB_def)
  have eph: "keyFromPublic L (toStringHex E) = Inr (getPublic L (genKeyPair rnd))"
    using assms(3) by (simp add: E_def)
  have Ee: "encodeCompressed L (getPublic L (genKeyPair rnd)) = E" by (simp add: E_def)
  have Ke: "hmacKey (sharedSecretToKeys L (bufferFromHex hx)) = K" by (simp add: K_def)
  have sensitive: "hmac_sha256 L K (flipBit i (ivB @ E @ c)) \<noteq> macB"
    if "i < 8 * length (ivB @ E @ c)" for i
    using assms(10) hx c that unfolding ivB_def E_def K_def macB_def by blast
  have a: "decryptECIES L privateKeyHex (co\<lparr>mac := toStringHex (flipBit i macB)\<rparr>)
             = Inl MacCheckFailed" if "i < 8 * length macB" for i
  proof -
    have "flipBit i macB \<noteq> macB" using that by (rule flipBit_changes)
    then show ?thesis
      using decryptECIES_unfold
              [of L privateKeyHex ecSK "co\<lparr>mac := toStringHex (flipBit i macB)\<rparr>"
                  "getPublic L (genKeyPair rnd)" z hx]
            assms(1,5) hx eph
      by (simp add: co' Ee Ke bufferFromHex_toStringHex macB_def [symmetric])
  qed
  have b: "decryptECIES L privateKeyHex (co\<lparr>iv := toStringHex (flipBit i ivB)\<rparr>)
             = Inl MacCheckFailed" if "i < 8 * length ivB" for i
  proof -
    have "flipBit i ivB @ E @ c = flipBit i (ivB @ E @ c)"
      using that by (simp add: flipBit_append_left)
    moreover have "i < 8 * length (ivB @ E @ c)" using that by simp
    ultimately have "hmac_sha256 L K (flipBit i ivB @ E @ c) \<noteq> macB"
      using sensitive [of i] by simp
    then show ?thesis
      using decryptECIES_unfold
              [of L privateKeyHex ecSK "co\<lparr>iv := toStringHex (flipBit i ivB)\<rparr>"
                  "getPublic L (genKeyPair rnd)" z hx]
            assms(1,5) hx eph
      by (auto simp: co' Ee Ke bufferFromHex_toStringHex)
  qed
  have ct: "decryptECIES L privateKeyHex (co\<lparr>cipherText := toStringHex (flipBit i c)\<rparr>)
             = Inl MacCheckFailed" if "i < 8 * length c" for i
  proof -
    have "(ivB @ E) @ flipBit i c = flipBit (8 * length (ivB @ E) + i) ((ivB @ E) @ c)"
      by (rule flipBit_append_right [symmetric])
    moreover have "8 * length (ivB @ E) + i < 8 * length (ivB @ E @ c)" using that by simp
    ultimately have "hmac_sha256 L K (ivB @ E @ flipBit i c) \<noteq> macB"
      using sensitive [of "8 * length (ivB @ E) + i"] by simp
    then show ?thesis
      using decryptECIES_unfold
              [of L privateKeyHex ecSK "co\<lparr>cipherText := toStringHex (flipBit i c)\<rparr>"
                  "getPublic L (genKeyPair rnd)" z hx]
            assms(1,5) hx eph
      by (auto simp: co' Ee Ke bufferFromHex_toStringHex)
  qed
  have d1: "decryptECIES L privateKeyHex (co\<lparr>ephemeralPK := toStringHex (flipBit i E)\<rparr>)
             = Inl (LibraryError msg)"
    if "keyFromPublic L (toStringHex (flipBit i E)) = Inl msg" for i msg
    using that assms(1) by (simp add: decryptECIES_def thrown_def co')
  have d2: "decryptECIES L privateKeyHex (co\<lparr>ephemeralPK := toStringHex (flipBit i E)\<rparr>)
             = Inl MacCheckFailed"
    if "keyFromPublic L (toStringHex (flipBit i E)) = Inr Q \<and>
        derive L ecSK Q = Inr z' \<and>
        getHexFromBN bnToStringHex z' = Inr hx' \<and>
        hmac_sha256 L (hmacKey (sharedSecretToKeys L (bufferFromHex hx')))
          (ivB @ encodeCompressed L Q @ c) \<noteq> macB" for i Q z' hx'
    using decryptECIES_unfold
            [of L privateKeyHex ecSK "co\<lparr>ephemeralPK := toStringHex (flipBit i E)\<rparr>" Q z' hx']
          assms(1) that
    by (auto simp: co' bufferFromHex_toStringHex)
  show ?thesis
  proof (intro exI conjI)
    show "getHexFromBN bnToStringHex z = Inr hx" by (rule hx)
    show "cipher_aes256cbc L (encryptionKey (sharedSecretToKeys L (bufferFromHex hx)))
             (randomBytes16 rnd) (bufferFrom m) = Inr c" by (rule c)
    show "ivB = randomBytes16 rnd" by (rule ivB_def)
    show "E = encodeCompressed L (getPublic L (genKeyPair rnd))" by (rule E_def)
    show "K = hmacKey (sharedSecretToKeys L (bufferFromHex hx))" by (rule K_def)
    show "macB = hmac_sha256 L K (ivB @ E @ c)" by (rule macB_def)
    show "co = \<lparr> iv = toStringHex ivB, ephemeralPK = toStringHex E,
                  cipherText = toStringHex c, mac = toStringHex macB,
                  wasString = (case m of Str _ \<Rightarrow> True | Buf _ \<Rightarrow> False) \<rparr>" by (rule co')
    show "encryptECIES L rnd publicKeyHex m = Inr co" by (rule e)
  qed (use a b ct d1 d2 in blast)+
qed

section \<open>Tampering in the instance\<close>

lemma demo_secret_hex:
  "getHexFromBN bnToStringHex 26 = Inr hx \<Longrightarrow> bufferFromHex hx = bytesOfNat 32 26"
  "getHexFromBN bnToStringHex 993 = Inr hx' \<Longrightarrow> bufferFromHex hx' = bytesOfNat 32 993"
proof -
  assume "getHexFromBN bnToStringHex 26 = Inr hx"
  then have "hx = replicate 62 48 @ [49, 97]"
    by (simp add: getHexFromBN_def bnToStringHex.simps hexDigit_def)
  then have "hx = [48, 48, 48, 48, 48, 48, 48, 48, 48, 48, 48, 48, 48, 48, 48, 48, 48, 48, 48, 48,
      48, 48, 48, 48, 48, 48, 48, 48, 48, 48, 48, 48, 48, 48, 48, 48, 48, 48, 48, 48, 48, 48, 48,
          48, 48, 48, 48, 48, 48, 48, 48, 48, 48, 48, 48, 48, 48, 48, 48, 48, 48, 48, 49,
              97]" by (simp add: numeral_eq_Suc)
  then show "bufferFromHex hx = bytesOfNat 32 26" by (simp add: unhex_def hexValue_def bytesOfNat.simps)
next
  assume "getHexFromBN bnToStringHex 993 = Inr hx'"
  then have "hx' = replicate 61 48 @ [51, 101, 49]"
    by (simp add: getHexFromBN_def bnToStringHex.simps hexDigit_def)
  then have "hx' = [48, 48, 48, 48, 48, 48, 48, 48, 48, 48, 48, 48, 48, 48, 48, 48, 48, 48, 48, 48,
      48, 48, 48, 48, 48, 48, 48, 48, 48, 48, 48, 48, 48, 48, 48, 48, 48, 48, 48, 48, 48, 48, 48,
          48, 48, 48, 48, 48, 48, 48, 48, 48, 48, 48, 48, 48, 48, 48, 48, 48, 48, 51, 101,
              49]" by (simp add: numeral_eq_Suc)
  then show "bufferFromHex hx' = bytesOfNat 32 993" by (simp add: unhex_def hexValue_def bytesOfNat.simps)
qed

lemma demo_digest512:
  "demoDigest 64 (bytesOfNat 32 26) = [0, 0, 0, 0, 0, 0, 0, 0, 0, 0, 0, 0, 0, 0, 0, 0, 0, 0, 0, 0,
      0, 0, 0, 0, 0, 0, 0, 0, 0, 0, 0, 0, 0, 0, 0, 0, 0, 0, 0, 0, 0, 0, 0, 0, 0, 0, 0, 0, 0, 0, 0,
          0, 0, 0, 0, 0, 0, 0, 0, 0, 0, 0, 206, 117]"
  "demoDigest 64 (bytesOfNat 32 993) = [0, 0, 0, 0, 0, 0, 0, 0, 0, 0, 0, 0, 0, 0, 0, 0, 0, 0, 0, 0,
      0, 0, 0, 0, 0, 0, 0, 0, 0, 0, 0, 0, 0, 0, 0, 0, 0, 0, 0, 0, 0, 0, 0, 0, 0, 0, 0, 0, 0, 0, 0,
          0, 0, 0, 0, 0, 0, 0, 0, 0, 0, 0, 210, 63]"
  by (simp_all add: demoDigest_def bytesOfNat.simps)

lemma demo_keys:
  "getHexFromBN bnToStringHex 26 = Inr hx \<Longrightarrow>
   sharedSecretToKeys demoLibrary (bufferFromHex hx) =
     \<lparr> encryptionKey = [0, 0, 0, 0, 0, 0, 0, 0, 0, 0, 0, 0, 0, 0, 0, 0, 0, 0, 0, 0, 0, 0, 0,
         0, 0, 0, 0, 0, 0, 0, 0, 0],
       hmacKey = [0, 0, 0, 0, 0, 0, 0, 0, 0, 0, 0, 0, 0, 0, 0, 0, 0, 0, 0, 0, 0, 0, 0, 0, 0, 0, 0,
           0, 0, 0, 206, 117] \<rparr>"
  "getHexFromBN bnToStringHex 993 = Inr hx' \<Longrightarrow>
   hmacKey (sharedSecretToKeys demoLibrary (bufferFromHex hx')) = [0, 0, 0, 0, 0, 0, 0, 0, 0, 0, 0,
       0, 0, 0, 0, 0, 0, 0, 0, 0, 0, 0, 0, 0, 0, 0, 0, 0, 0, 0, 210, 63]"
  by (simp_all add: demo_secret_hex sharedSecretToKeys_eq demoLibrary_def demo_digest512)

lemma demo_points:
  "demoEncodeCompressed 385 = [2, 0, 0, 0, 0, 0, 0, 0, 0, 0, 0, 0, 0, 0, 0, 0, 0, 0, 0, 0, 0, 0, 0,
      0, 0, 0, 0, 0, 0, 0, 0, 1, 129]"
  "demoEncodeCompressed 384 = [2, 0, 0, 0, 0, 0, 0, 0, 0, 0, 0, 0, 0, 0, 0, 0, 0, 0, 0, 0, 0, 0, 0,
      0, 0, 0, 0, 0, 0, 0, 0, 1, 128]"
  by (simp_all add: demoEncodeCompressed_def bytesOfNat.simps)

lemma demo_flipped_points:
  "demoKeyFromPublic (toStringHex (flipBit 2 [2, 0, 0, 0, 0, 0, 0, 0, 0, 0, 0, 0, 0, 0, 0, 0, 0, 0,
      0, 0, 0, 0, 0, 0, 0, 0, 0, 0, 0, 0, 0, 1, 129])) = Inl ''Unknown point format''"
  "demoKeyFromPublic (toStringHex (flipBit 256 [2, 0, 0, 0, 0, 0, 0, 0, 0, 0, 0, 0, 0, 0, 0, 0, 0,
      0, 0, 0, 0, 0, 0, 0, 0, 0, 0, 0, 0, 0, 0, 1, 129])) = Inr 384"
  by code_simp+

lemma demo_macs:
  "demoDigest 32 ([0, 0, 0, 0, 0, 0, 0, 0, 0, 0, 0, 0, 0, 0, 0, 0, 0, 0, 0, 0, 0, 0, 0, 0, 0, 0, 0,
      0, 0, 0, 206, 117] @ [1, 2, 3, 4, 5, 6, 7, 8, 9, 10, 11, 12, 13, 14, 15, 16] @ [2, 0, 0, 0,
          0, 0, 0, 0, 0, 0, 0, 0, 0, 0, 0, 0, 0, 0, 0, 0, 0, 0, 0, 0, 0, 0, 0, 0, 0, 0, 0, 1,
              129] @ [73, 104]) = [0, 0, 0, 0, 0, 0, 0, 0, 0, 0, 0, 0, 0, 0, 0, 0, 0, 0, 0, 0, 0,
                  0, 0, 0, 0, 0, 0, 0, 0, 0, 222, 236]"
  "demoDigest 32 ([0, 0, 0, 0, 0, 0, 0, 0, 0, 0, 0, 0, 0, 0, 0, 0, 0, 0, 0, 0, 0, 0, 0, 0, 0, 0, 0,
      0, 0, 0, 210, 63] @ [1, 2, 3, 4, 5, 6, 7, 8, 9, 10, 11, 12, 13, 14, 15, 16] @ [2, 0, 0, 0, 0,
          0, 0, 0, 0, 0, 0, 0, 0, 0, 0, 0, 0, 0, 0, 0, 0, 0, 0, 0, 0, 0, 0, 0, 0, 0, 0, 1,
              128] @ [73, 104]) = [0, 0, 0, 0, 0, 0, 0, 0, 0, 0, 0, 0, 0, 0, 0, 0, 0, 0, 0, 0, 0,
                  0, 0, 0, 0, 0, 0, 0, 0, 0, 44, 214]"
  by (simp_all add: demoDigest_def bytesOfNat.simps)

lemma demo_hmac: "hmac_sha256 demoLibrary k d = demoDigest 32 (k @ d)"
  by (simp add: demoLibrary_def)

lemma demo_encode: "encodeCompressed demoLibrary P = demoEncodeCompressed P"
  by (simp add: demoLibrary_def)

lemma demo_encrypted:
  assumes "getHexFromBN bnToStringHex 26 = Inr hx"
    and "cipher_aes256cbc demoLibrary
           (encryptionKey (sharedSecretToKeys demoLibrary (bufferFromHex hx)))
           (randomBytes16 demoEntropy) (bufferFrom (Str [72, 105])) = Inr c"
  shows "c = [73, 104]"
    and "hmacKey (sharedSecretToKeys demoLibrary (bufferFromHex hx)) = [0, 0, 0, 0, 0, 0, 0, 0, 0,
        0, 0, 0, 0, 0, 0, 0, 0, 0, 0, 0, 0, 0, 0, 0, 0, 0, 0, 0, 0, 0, 206, 117]"
proof -
  have plain: "bufferFrom (Str [72, 105]) = [72, 105]"
    by (simp add: isHighSurrogate_def isLowSurrogate_def utf8Bytes_def)
  have key: "encryptionKey (sharedSecretToKeys demoLibrary (bufferFromHex hx)) =
               [0, 0, 0, 0, 0, 0, 0, 0, 0, 0, 0, 0, 0, 0, 0, 0, 0, 0, 0, 0, 0, 0, 0, 0, 0, 0, 0, 0,
                   0, 0, 0, 0]"
    by (simp add: demo_keys(1) [OF assms(1)])
  have "demoCipher
          [0, 0, 0, 0, 0, 0, 0, 0, 0, 0, 0, 0, 0, 0, 0, 0, 0, 0, 0, 0, 0, 0, 0, 0, 0, 0, 0, 0, 0,
              0, 0, 0]
          (randomBytes16 demoEntropy) [72, 105] = Inr c"
    using assms(2) unfolding plain key by (simp add: demoLibrary_def)
  then show "c = [73, 104]"
    by (simp add: demoCipher_def demoEntropy_def)
  show "hmacKey (sharedSecretToKeys demoLibrary (bufferFromHex hx)) = [0, 0, 0, 0, 0, 0, 0, 0, 0,
      0, 0, 0, 0, 0, 0, 0, 0, 0, 0, 0, 0, 0, 0, 0, 0, 0, 0, 0, 0, 0, 206, 117]"
    by (simp add: demo_keys(1) [OF assms(1)])
qed

theorem decryptECIES_rejects_flipped_bit_witness:
  "\<exists>co. encryptECIES demoLibrary demoEntropy demoPublicKey (Str [72, 105]) = Inr co \<and>
     decryptECIES demoLibrary demoPrivateKey
       (co\<lparr>mac := toStringHex (flipBit 0 (bufferFromHex (mac co)))\<rparr>) = Inl MacCheckFailed \<and>
     decryptECIES demoLibrary demoPrivateKey
       (co\<lparr>mac := toStringHex (flipBit 255 (bufferFromHex (mac co)))\<rparr>) = Inl MacCheckFailed \<and>
     decryptECIES demoLibrary demoPrivateKey
       (co\<lparr>iv := toStringHex (flipBit 0 (bufferFromHex (iv co)))\<rparr>) = Inl MacCheckFailed \<and>
     decryptECIES demoLibrary demoPrivateKey
       (co\<lparr>iv := toStringHex (flipBit 127 (bufferFromHex (iv co)))\<rparr>) = Inl MacCheckFailed \<and>
     decryptECIES demoLibrary demoPrivateKey
       (co\<lparr>cipherText := toStringHex (flipBit 0 (bufferFromHex (cipherText co)))\<rparr>)
       = Inl MacCheckFailed \<and>
     decryptECIES demoLibrary demoPrivateKey
       (co\<lparr>cipherText := toStringHex (flipBit 15 (bufferFromHex (cipherText co)))\<rparr>)
       = Inl MacCheckFailed \<and>
     decryptECIES demoLibrary demoPrivateKey
       (co\<lparr>ephemeralPK := toStringHex (flipBit 2 (bufferFromHex (ephemeralPK co)))\<rparr>)
       = Inl (LibraryError ''Unknown point format'') \<and>
     decryptECIES demoLibrary demoPrivateKey
       (co\<lparr>ephemeralPK := toStringHex (flipBit 256 (bufferFromHex (ephemeralPK co)))\<rparr>)
       = Inl MacCheckFailed"
proof -
  have pk: "keyFromPublic demoLibrary demoPublicKey = Inr (getPublic demoLibrary 42)"
    by (simp add: demo_public demo_getPublic)
  have eph: "keyFromPublic demoLibrary
               (toStringHex (encodeCompressed demoLibrary
                  (getPublic demoLibrary (genKeyPair demoEntropy))))
             = Inr (getPublic demoLibrary (genKeyPair demoEntropy))"
    by (simp add: demo_entropy demo_getPublic demo_ephemeral)
  have dh1: "derive demoLibrary (genKeyPair demoEntropy) (getPublic demoLibrary 42) = Inr 26"
    by (simp add: demo_entropy demo_getPublic demo_derive)
  have dh2: "derive demoLibrary 42 (getPublic demoLibrary (genKeyPair demoEntropy)) = Inr 26"
    by (simp add: demo_entropy demo_getPublic demo_derive)
  have z: "(26::nat) < 2 ^ 256" by simp
  have sha: "\<forall>x. length (sha512 demoLibrary x) = 64" by (simp add: demo_sha512_length)
  have aes: "\<forall>key ivBuffer p. length key = 32 \<and> length ivBuffer = 16 \<longrightarrow>
                (\<exists>c. cipher_aes256cbc demoLibrary key ivBuffer p = Inr c \<and>
                     decipher_aes256cbc demoLibrary key ivBuffer c = Inr p)"
    using demo_cipher_inverse by blast
  have sensitive: "\<forall>hx c i.
           getHexFromBN bnToStringHex 26 = Inr hx \<and>
           cipher_aes256cbc demoLibrary
             (encryptionKey (sharedSecretToKeys demoLibrary (bufferFromHex hx)))
             (randomBytes16 demoEntropy) (bufferFrom (Str [72, 105])) = Inr c \<and>
           i < 8 * length (randomBytes16 demoEntropy @
                 encodeCompressed demoLibrary (getPublic demoLibrary (genKeyPair demoEntropy)) @
                 c) \<longrightarrow>
           hmac_sha256 demoLibrary (hmacKey (sharedSecretToKeys demoLibrary (bufferFromHex hx)))
             (flipBit i (randomBytes16 demoEntropy @
                 encodeCompressed demoLibrary (getPublic demoLibrary (genKeyPair demoEntropy)) @
                 c)) \<noteq>
           hmac_sha256 demoLibrary (hmacKey (sharedSecretToKeys demoLibrary (bufferFromHex hx)))
             (randomBytes16 demoEntropy @
                 encodeCompressed demoLibrary (getPublic demoLibrary (genKeyPair demoEntropy)) @
                 c)"
    by (intro allI impI demo_hmac_flip) (elim conjE)
  obtain hx c co ivB E K macB where hx: "getHexFromBN bnToStringHex 26 = Inr hx"
    and c: "cipher_aes256cbc demoLibrary
              (encryptionKey (sharedSecretToKeys demoLibrary (bufferFromHex hx)))
              (randomBytes16 demoEntropy) (bufferFrom (Str [72, 105])) = Inr c"
    and ivB: "ivB = randomBytes16 demoEntropy"
    and E: "E = encodeCompressed demoLibrary (getPublic demoLibrary (genKeyPair demoEntropy))"
    and K: "K = hmacKey (sharedSecretToKeys demoLibrary (bufferFromHex hx))"
    and macB: "macB = hmac_sha256 demoLibrary K (ivB @ E @ c)"
    and co: "co = \<lparr> iv = toStringHex ivB, ephemeralPK = toStringHex E,
                  cipherText = toStringHex c, mac = toStringHex macB,
                  wasString = (case Str [72,
                      105] of Str _ \<Rightarrow> True | Buf _ \<Rightarrow> False) \<rparr>"
    and e: "encryptECIES demoLibrary demoEntropy demoPublicKey (Str [72, 105]) = Inr co"
    and fmac: "\<forall>i. i < 8 * length macB \<longrightarrow>
                decryptECIES demoLibrary demoPrivateKey
                  (co\<lparr>mac := toStringHex (flipBit i macB)\<rparr>) = Inl MacCheckFailed"
    and fiv: "\<forall>i. i < 8 * length ivB \<longrightarrow>
                decryptECIES demoLibrary demoPrivateKey
                  (co\<lparr>iv := toStringHex (flipBit i ivB)\<rparr>) = Inl MacCheckFailed"
    and fct: "\<forall>i. i < 8 * length c \<longrightarrow>
                decryptECIES demoLibrary demoPrivateKey
                  (co\<lparr>cipherText := toStringHex (flipBit i c)\<rparr>) = Inl MacCheckFailed"
    and fpk1: "\<forall>i msg. keyFromPublic demoLibrary (toStringHex (flipBit i E)) = Inl msg \<longrightarrow>
                decryptECIES demoLibrary demoPrivateKey
                  (co\<lparr>ephemeralPK := toStringHex (flipBit i E)\<rparr>) = Inl (LibraryError msg)"
    and fpk2: "\<forall>i Q z' hx'.
                keyFromPublic demoLibrary (toStringHex (flipBit i E)) = Inr Q \<and>
                derive demoLibrary 42 Q = Inr z' \<and>
                getHexFromBN bnToStringHex z' = Inr hx' \<and>
                hmac_sha256 demoLibrary
                  (hmacKey (sharedSecretToKeys demoLibrary (bufferFromHex hx')))
                  (ivB @ encodeCompressed demoLibrary Q @ c) \<noteq> macB \<longrightarrow>
                decryptECIES demoLibrary demoPrivateKey
                  (co\<lparr>ephemeralPK := toStringHex (flipBit i E)\<rparr>) = Inl MacCheckFailed"
    using decryptECIES_rejects_flipped_bit
            [OF demo_private pk eph dh1 dh2 z sha aes demo_entropy(2) sensitive]
    by blast
  have cv: "c = [73, 104]" and Kv: "K = [0, 0, 0, 0, 0, 0, 0, 0, 0, 0, 0, 0, 0, 0, 0, 0, 0, 0, 0,
      0, 0, 0, 0, 0, 0, 0, 0, 0, 0, 0, 206, 117]"
    using demo_encrypted [OF hx c] K by simp_all
  have ivv: "ivB = [1, 2, 3, 4, 5, 6, 7, 8, 9, 10, 11, 12, 13, 14, 15, 16]"
    by (simp add: ivB demoEntropy_def)
  have Ev: "E = [2, 0, 0, 0, 0, 0, 0, 0, 0, 0, 0, 0, 0, 0, 0, 0, 0, 0, 0, 0, 0, 0, 0, 0, 0, 0, 0,
      0, 0, 0, 0, 1, 129]"
    using demo_points(1)
    by (simp add: E demo_entropy demo_getPublic) (simp add: demoLibrary_def)
  have macv: "macB = [0, 0, 0, 0, 0, 0, 0, 0, 0, 0, 0, 0, 0, 0, 0, 0, 0, 0, 0, 0, 0, 0, 0, 0, 0, 0,
      0, 0, 0, 0, 222, 236]"
    by (simp only: macB demo_hmac Kv ivv Ev cv demo_macs(1))
  have fields: "bufferFromHex (mac co) = macB" "bufferFromHex (iv co) = ivB"
    "bufferFromHex (cipherText co) = c" "bufferFromHex (ephemeralPK co) = E"
    by (simp_all add: co bufferFromHex_toStringHex)
  have lens: "length macB = 32" "length ivB = 16" "length c = 2"
    by (simp_all add: macB demo_hmac_length ivB demo_entropy cv)
  have r1: "decryptECIES demoLibrary demoPrivateKey
              (co\<lparr>mac := toStringHex (flipBit 0 macB)\<rparr>) = Inl MacCheckFailed"
           "decryptECIES demoLibrary demoPrivateKey
              (co\<lparr>mac := toStringHex (flipBit 255 macB)\<rparr>) = Inl MacCheckFailed"
    using fmac lens by simp_all
  have r2: "decryptECIES demoLibrary demoPrivateKey
              (co\<lparr>iv := toStringHex (flipBit 0 ivB)\<rparr>) = Inl MacCheckFailed"
           "decryptECIES demoLibrary demoPrivateKey
              (co\<lparr>iv := toStringHex (flipBit 127 ivB)\<rparr>) = Inl MacCheckFailed"
    using fiv lens by simp_all
  have r3: "decryptECIES demoLibrary demoPrivateKey
              (co\<lparr>cipherText := toStringHex (flipBit 0 c)\<rparr>) = Inl MacCheckFailed"
           "decryptECIES demoLibrary demoPrivateKey
              (co\<lparr>cipherText := toStringHex (flipBit 15 c)\<rparr>) = Inl MacCheckFailed"
    using fct lens by simp_all
  have "keyFromPublic demoLibrary (toStringHex (flipBit 2 E)) = Inl ''Unknown point format''"
    using demo_flipped_points(1) by (simp add: Ev demoLibrary_def)
  then have r4: "decryptECIES demoLibrary demoPrivateKey
                   (co\<lparr>ephemeralPK := toStringHex (flipBit 2 E)\<rparr>)
                 = Inl (LibraryError ''Unknown point format'')"
    using fpk1 by blast
  obtain hx' where hx': "getHexFromBN bnToStringHex 993 = Inr hx'"
    using getHexFromBN_field [of 993] by auto
  have q: "keyFromPublic demoLibrary (toStringHex (flipBit 256 E)) = Inr 384"
    using demo_flipped_points(2) by (simp add: Ev demoLibrary_def)
  have d: "derive demoLibrary 42 384 = Inr 993"
    by (simp add: demoLibrary_def demoDerive_def)
  have m: "hmac_sha256 demoLibrary
             (hmacKey (sharedSecretToKeys demoLibrary (bufferFromHex hx')))
             (ivB @ encodeCompressed demoLibrary 384 @ c) \<noteq> macB"
    by (simp only: demo_keys(2) [OF hx'] demo_hmac demo_encode demo_points(2) ivv cv macv
          demo_macs(2)) simp
  have r5: "decryptECIES demoLibrary demoPrivateKey
              (co\<lparr>ephemeralPK := toStringHex (flipBit 256 E)\<rparr>) = Inl MacCheckFailed"
    using fpk2 q d hx' m by blast
  show ?thesis
    using e r1 r2 r3 r4 r5 by (intro exI [of _ co]) (simp add: fields)
qed

theorem decryptECIES_flipped_bit_counterexample:
  "\<exists>co. encryptECIES demoLibrary demoEntropy demoPublicKey (Str [72, 105]) = Inr co \<and>
     decryptECIES demoLibrary demoPrivateKey
       (co\<lparr>ephemeralPK := toStringHex (flipBit 2 (bufferFromHex (ephemeralPK co)))\<rparr>)
       = Inl (LibraryError ''Unknown point format'')"
proof -
  obtain co where e: "encryptECIES demoLibrary demoEntropy demoPublicKey (Str [72, 105]) = Inr co"
    and p: "ephemeralPK co = toStringHex (encodeCompressed demoLibrary 385)"
    using demo_round_trip [of "Str [72, 105]"] by auto
  have "bufferFromHex (ephemeralPK co) = [2, 0, 0, 0, 0, 0, 0, 0, 0, 0, 0, 0, 0, 0, 0, 0, 0, 0, 0,
      0, 0, 0, 0, 0, 0, 0, 0, 0, 0, 0, 0, 1, 129]"
    by (simp add: p bufferFromHex_toStringHex demoLibrary_def demo_points)
  then have "keyFromPublic demoLibrary
               (toStringHex (flipBit 2 (bufferFromHex (ephemeralPK co))))
             = Inl ''Unknown point format''"
    using demo_flipped_points(1) by (simp add: demoLibrary_def)
  then have "decryptECIES demoLibrary demoPrivateKey
       (co\<lparr>ephemeralPK := toStringHex (flipBit 2 (bufferFromHex (ephemeralPK co)))\<rparr>)
       = Inl (LibraryError ''Unknown point format'')"
    by (simp add: decryptECIES_def thrown_def demo_private)
  then show ?thesis using e by blast
qed

end
